theory Spec2Isabelle
  imports Complex_Main "HOL-Library.Word" "HOL-Library.Log_Nat"
begin

section \<open>Data model\<close>

text \<open>
  The repository holds two deployments of the same tool. The peer-to-peer one
  (staff console \<^verbatim>\<open>part_002\<close>, patient display \<^verbatim>\<open>part_003\<close>, store \<^verbatim>\<open>lib/db.ts\<close>)
  pairs the two screens over a PeerJS data connection; the relayed one (staff console
  \<^verbatim>\<open>pages/StaffDashboard.tsx\<close>, patient display \<^verbatim>\<open>part_000\<close>, server \<^verbatim>\<open>part_001\<close>)
  goes through Socket.io rooms. JavaScript strings are modelled as \<^typ>\<open>string\<close>,
  byte buffers as lists of 8-bit words, and \<^verbatim>\<open>T | null\<close> as \<^typ>\<open>'a option\<close>.
\<close>

type_synonym bytes = "8 word list"

text \<open>A \<^verbatim>\<open>Blob\<close>: its content and its MIME type.\<close>

record blob =
  blob_bytes :: bytes
  blob_type :: string

text \<open>\<^verbatim>\<open>Blob.arrayBuffer()\<close>: the content of the blob.\<close>

definition arrayBuffer :: "blob \<Rightarrow> bytes" where
  "arrayBuffer b = blob_bytes b"

text \<open>
  \<^verbatim>\<open>interface Instruction\<close> of \<^verbatim>\<open>lib/db.ts\<close> (field \<^verbatim>\<open>id\<close> is \<open>inst_id\<close> here).
\<close>

record instruction =
  inst_id :: string
  scenario_id :: string
  name :: string
  media :: "blob option"
  media_type :: "string option"
  bg_color :: string

text \<open>
  \<^verbatim>\<open>interface Instruction\<close> of the relayed deployment (\<^verbatim>\<open>StaffDashboard.tsx\<close>,
  \<^verbatim>\<open>part_000\<close>): the media is a URL, not a blob.
\<close>

record url_instruction =
  u_id :: string
  u_scenario_id :: string
  u_name :: string
  media_url :: "string option"
  u_media_type :: "string option"
  u_bg_color :: string

text \<open>
  \<^verbatim>\<open>interface Instruction\<close> of the peer-to-peer display (\<^verbatim>\<open>part_003\<close>), which is
  also the \<^verbatim>\<open>payload\<close> object built by \<^verbatim>\<open>sendInstruction\<close>: the media is an
  \<^verbatim>\<open>ArrayBuffer\<close>.
\<close>

record payload =
  p_id :: string
  p_name :: string
  p_media :: "bytes option"
  p_media_type :: "string option"
  p_bg_color :: string

text \<open>The two objects the staff console sends over the data connection.\<close>

datatype peer_msg = MsgInstruction payload | MsgClear

text \<open>The two events the relayed staff console emits on its socket.\<close>

datatype 'i client_emit = Emit_send_instruction 'i | Emit_clear_instruction

datatype view_mode = ViewList | ViewSession | ViewEdit

text \<open>JavaScript truthiness of a \<^verbatim>\<open>string | null\<close>: null and the empty string are falsy.\<close>

definition truthy_str :: "string option \<Rightarrow> bool" where
  "truthy_str x = (case x of None \<Rightarrow> False | Some s \<Rightarrow> s \<noteq> [])"

section \<open>Staff console: session state\<close>

text \<open>
  The React state both staff consoles share; the step index is a JavaScript number that
  the console only ever sets to integers.
\<close>

record 'i dashboard =
  instructionsByScenario :: "string \<rightharpoonup> 'i list"
  patientConnected :: bool
  viewMode :: view_mode
  activeScenarioId :: "string option"
  currentStepIndex :: int

text \<open>
  The peer-to-peer console adds the PeerJS state. A \<^verbatim>\<open>DataConnection\<close> is identified
  by the peer id it was opened to; \<open>peerRef\<close> tells whether \<^verbatim>\<open>peerRef.current\<close> is set.
  \<open>awaiting\<close> is not React state: it holds the calls of \<^verbatim>\<open>sendInstruction\<close> that are
  suspended at \<^verbatim>\<open>await inst.media.arrayBuffer()\<close>, each with the instruction it was given.
\<close>

record 'i peer_dashboard = "'i dashboard" +
  patientCode :: string
  isConnecting :: bool
  peerRef :: bool
  connRef :: "string option"
  awaiting :: "'i list"

text \<open>\<^verbatim>\<open>instructionsByScenario[id] || []\<close>\<close>

definition steps_of :: "('i, 'z) dashboard_scheme \<Rightarrow> string \<Rightarrow> 'i list" where
  "steps_of st sid = (case instructionsByScenario st sid of None \<Rightarrow> [] | Some xs \<Rightarrow> xs)"

text \<open>
  \<^verbatim>\<open>setInstructionsByScenario(instMap)\<close>, the last statement of \<^verbatim>\<open>fetchScenarios\<close>: the
  loaded scenarios are replaced by what the store holds now. Both consoles run it after
  every edit, and the relayed console also whenever the server announces a change.
\<close>

definition setInstructionsByScenario ::
  "(string \<rightharpoonup> 'i list) \<Rightarrow> ('i, 'z) dashboard_scheme \<Rightarrow> ('i, 'z) dashboard_scheme" where
  "setInstructionsByScenario instMap st = st\<lparr>instructionsByScenario := instMap\<rparr>"

subsection \<open>Peer-to-peer console (\<^verbatim>\<open>part_002\<close>)\<close>

text \<open>\<^verbatim>\<open>connRef.current && patientConnected\<close>\<close>

definition link_up :: "('i, 'z) peer_dashboard_scheme \<Rightarrow> bool" where
  "link_up st = (connRef st \<noteq> None \<and> patientConnected st)"

definition to_payload :: "instruction \<Rightarrow> payload" where
  "to_payload inst =
     \<lparr>p_id = inst_id inst,
      p_name = name inst,
      p_media = (case media inst of None \<Rightarrow> None | Some b \<Rightarrow> Some (arrayBuffer b)),
      p_media_type = media_type inst,
      p_bg_color = bg_color inst\<rparr>"

text \<open>
  The functions return the new state and the objects they put on the data connection, in
  order. \<^verbatim>\<open>sendInstruction\<close> is asynchronous: it tests the link when it is called; for
  an instruction without media it sends at once, and for an instruction with media it is
  suspended until the buffer of the media is there.
\<close>

definition sendInstruction ::
  "(instruction, 'z) peer_dashboard_scheme \<Rightarrow> instruction \<Rightarrow>
   (instruction, 'z) peer_dashboard_scheme \<times> peer_msg list" where
  "sendInstruction st inst =
     (if link_up st
      then (case media inst of
              None \<Rightarrow> (st, [MsgInstruction (to_payload inst)])
            | Some b \<Rightarrow> (st\<lparr>awaiting := awaiting st @ [inst]\<rparr>, []))
      else (st, []))"

text \<open>
  The rest of \<^verbatim>\<open>sendInstruction\<close>, run when the buffer of the \<open>k\<close>-th suspended call is
  there: \<^verbatim>\<open>connRef.current.send(...)\<close>, with no second test of the link. If the connection
  has been closed meanwhile, \<^verbatim>\<open>connRef.current\<close> is null and the call ends in a
  \<^verbatim>\<open>TypeError\<close>.
\<close>

datatype js_error = TypeError

definition sendInstruction_resume ::
  "nat \<Rightarrow> (instruction, 'z) peer_dashboard_scheme \<Rightarrow>
   (instruction, 'z) peer_dashboard_scheme \<times> (js_error + peer_msg list)" where
  "sendInstruction_resume k st =
     (if k < length (awaiting st)
      then (let inst = awaiting st ! k;
                st' = st\<lparr>awaiting := take k (awaiting st) @ drop (Suc k) (awaiting st)\<rparr>
            in case connRef st of
                 None \<Rightarrow> (st', Inl TypeError)
               | Some conn \<Rightarrow> (st', Inr [MsgInstruction (to_payload inst)]))
      else (st, Inr []))"

definition clearInstruction :: "('i, 'z) peer_dashboard_scheme \<Rightarrow> peer_msg list" where
  "clearInstruction st = (if link_up st then [MsgClear] else [])"

definition startSession ::
  "(instruction, 'z) peer_dashboard_scheme \<Rightarrow> string \<Rightarrow>
   (instruction, 'z) peer_dashboard_scheme \<times> peer_msg list" where
  "startSession st scenarioId =
     (let st' = st\<lparr>activeScenarioId := Some scenarioId, currentStepIndex := 0,
                    viewMode := ViewSession\<rparr>;
          instructions = steps_of st scenarioId
      in if length instructions > 0 then sendInstruction st' (instructions ! 0)
         else (st', []))"

definition endSession ::
  "(instruction, 'z) peer_dashboard_scheme \<Rightarrow>
   (instruction, 'z) peer_dashboard_scheme \<times> peer_msg list" where
  "endSession st =
     (st\<lparr>activeScenarioId := None, currentStepIndex := 0, viewMode := ViewList\<rparr>,
      clearInstruction st)"

definition goToStep ::
  "(instruction, 'z) peer_dashboard_scheme \<Rightarrow> int \<Rightarrow>
   (instruction, 'z) peer_dashboard_scheme \<times> peer_msg list" where
  "goToStep st index =
     (if \<not> truthy_str (activeScenarioId st) then (st, [])
      else let instructions = steps_of st (the (activeScenarioId st))
           in if index \<ge> 0 \<and> index < int (length instructions)
              then sendInstruction (st\<lparr>currentStepIndex := index\<rparr>) (instructions ! nat index)
              else (st, []))"

text \<open>The two buttons of the session view.\<close>

definition next_step ::
  "(instruction, 'z) peer_dashboard_scheme \<Rightarrow>
   (instruction, 'z) peer_dashboard_scheme \<times> peer_msg list" where
  "next_step st = goToStep st (currentStepIndex st + 1)"

definition previous_step ::
  "(instruction, 'z) peer_dashboard_scheme \<Rightarrow>
   (instruction, 'z) peer_dashboard_scheme \<times> peer_msg list" where
  "previous_step st = goToStep st (currentStepIndex st - 1)"

text \<open>
  \<^verbatim>\<open>connectToPatient\<close>: the peer id the console dials, if it dials. The three handlers
  it installs follow.
\<close>

definition connectToPatient ::
  "('i, 'z) peer_dashboard_scheme \<Rightarrow> ('i, 'z) peer_dashboard_scheme \<times> string option" where
  "connectToPatient st =
     (if patientCode st = [] \<or> \<not> peerRef st then (st, None)
      else (st\<lparr>isConnecting := True\<rparr>, Some (''radio-patient-'' @ patientCode st)))"

definition conn_on_open ::
  "string \<Rightarrow> ('i, 'z) peer_dashboard_scheme \<Rightarrow> ('i, 'z) peer_dashboard_scheme" where
  "conn_on_open conn st = st\<lparr>connRef := Some conn, patientConnected := True,
                             isConnecting := False\<rparr>"

definition conn_on_close ::
  "('i, 'z) peer_dashboard_scheme \<Rightarrow> ('i, 'z) peer_dashboard_scheme" where
  "conn_on_close st = st\<lparr>patientConnected := False, connRef := None\<rparr>"


subsection \<open>Relayed console (\<^verbatim>\<open>pages/StaffDashboard.tsx\<close>)\<close>

text \<open>
  The socket is a property of the component, \<^verbatim>\<open>Socket | null\<close>; \<open>sock\<close> tells whether it
  is set, and \<^verbatim>\<open>socket?.emit\<close> emits only then.
\<close>

definition socket_emit :: "bool \<Rightarrow> 'i client_emit \<Rightarrow> 'i client_emit list" where
  "socket_emit sock e = (if sock then [e] else [])"

definition startSession_io ::
  "bool \<Rightarrow> ('i, 'z) dashboard_scheme \<Rightarrow> string \<Rightarrow>
   ('i, 'z) dashboard_scheme \<times> 'i client_emit list" where
  "startSession_io sock st scenarioId =
     (let st' = st\<lparr>activeScenarioId := Some scenarioId, currentStepIndex := 0,
                    viewMode := ViewSession\<rparr>;
          instructions = steps_of st scenarioId
      in if length instructions > 0
         then (st', socket_emit sock (Emit_send_instruction (instructions ! 0)))
         else (st', []))"

definition endSession_io ::
  "bool \<Rightarrow> ('i, 'z) dashboard_scheme \<Rightarrow> ('i, 'z) dashboard_scheme \<times> 'i client_emit list" where
  "endSession_io sock st =
     (st\<lparr>activeScenarioId := None, currentStepIndex := 0, viewMode := ViewList\<rparr>,
      socket_emit sock Emit_clear_instruction)"

definition goToStep_io ::
  "bool \<Rightarrow> ('i, 'z) dashboard_scheme \<Rightarrow> int \<Rightarrow>
   ('i, 'z) dashboard_scheme \<times> 'i client_emit list" where
  "goToStep_io sock st index =
     (if \<not> truthy_str (activeScenarioId st) then (st, [])
      else let instructions = steps_of st (the (activeScenarioId st))
           in if index \<ge> 0 \<and> index < int (length instructions)
              then (st\<lparr>currentStepIndex := index\<rparr>,
                    socket_emit sock (Emit_send_instruction (instructions ! nat index)))
              else (st, []))"

text \<open>The handler of \<^verbatim>\<open>patient_status\<close>, the relay's report on the display.\<close>

definition on_patient_status ::
  "bool \<Rightarrow> ('i, 'z) dashboard_scheme \<Rightarrow> ('i, 'z) dashboard_scheme" where
  "on_patient_status is_connected st = st\<lparr>patientConnected := is_connected\<rparr>"

subsection \<open>Sessions as sequences of actions\<close>

text \<open>
  What happens to a console during a session: the operator starts a scenario, goes to a
  step, presses Next or Previous, ends the session; and a run of \<^verbatim>\<open>fetchScenarios\<close>
  completes and replaces the loaded scenarios (\<open>Refresh\<close>).
\<close>

datatype 'i action =
    Start string
  | GoTo int
  | Next
  | Previous
  | End
  | Refresh "string \<Rightarrow> 'i list option"


fun act ::
  "(instruction, 'z) peer_dashboard_scheme \<Rightarrow> instruction action \<Rightarrow>
   (instruction, 'z) peer_dashboard_scheme \<times> peer_msg list" where
  "act st (Start sid) = startSession st sid"
| "act st (GoTo i) = goToStep st i"
| "act st Next = next_step st"
| "act st Previous = previous_step st"
| "act st End = endSession st"
| "act st (Refresh instMap) = (setInstructionsByScenario instMap st, [])"

fun run ::
  "(instruction, 'z) peer_dashboard_scheme \<Rightarrow> instruction action list \<Rightarrow>
   (instruction, 'z) peer_dashboard_scheme" where
  "run st [] = st"
| "run st (a # as) = run (fst (act st a)) as"

fun act_io ::
  "bool \<Rightarrow> ('i, 'z) dashboard_scheme \<Rightarrow> 'i action \<Rightarrow>
   ('i, 'z) dashboard_scheme \<times> 'i client_emit list" where
  "act_io sock st (Start sid) = startSession_io sock st sid"
| "act_io sock st (GoTo i) = goToStep_io sock st i"
| "act_io sock st Next = goToStep_io sock st (currentStepIndex st + 1)"
| "act_io sock st Previous = goToStep_io sock st (currentStepIndex st - 1)"
| "act_io sock st End = endSession_io sock st"
| "act_io sock st (Refresh instMap) = (setInstructionsByScenario instMap st, [])"

fun run_io ::
  "bool \<Rightarrow> ('i, 'z) dashboard_scheme \<Rightarrow> 'i action list \<Rightarrow> ('i, 'z) dashboard_scheme" where
  "run_io sock st [] = st"
| "run_io sock st (a # as) = run_io sock (fst (act_io sock st a)) as"

text \<open>
  The session is active when \<^verbatim>\<open>activeScenarioId\<close> is truthy (the test of \<^verbatim>\<open>goToStep\<close>
  and of the session view); the cursor is in bounds when it indexes a step of the
  active scenario.
\<close>

definition is_active :: "('i, 'z) dashboard_scheme \<Rightarrow> bool" where
  "is_active st = truthy_str (activeScenarioId st)"

definition active_steps :: "('i, 'z) dashboard_scheme \<Rightarrow> 'i list" where
  "active_steps st =
     (case activeScenarioId st of None \<Rightarrow> [] | Some sid \<Rightarrow> steps_of st sid)"

definition cursor_in_bounds :: "('i, 'z) dashboard_scheme \<Rightarrow> bool" where
  "cursor_in_bounds st =
     (is_active st \<longrightarrow>
        0 \<le> currentStepIndex st \<and> currentStepIndex st < int (length (active_steps st)))"

text \<open>The bound, asked only of a session whose scenario has at least one step.\<close>

definition bound_when_steps :: "('i, 'z) dashboard_scheme \<Rightarrow> bool" where
  "bound_when_steps st = (active_steps st \<noteq> [] \<longrightarrow> cursor_in_bounds st)"

text \<open>The state of a console that has just been mounted, holding the given scenarios.\<close>

definition mounted :: "(string \<rightharpoonup> instruction list) \<Rightarrow> instruction peer_dashboard" where
  "mounted m =
     \<lparr>instructionsByScenario = m, patientConnected = False, viewMode = ViewList,
      activeScenarioId = None, currentStepIndex = 0,
      patientCode = [], isConnecting = False, peerRef = True, connRef = None,
      awaiting = []\<rparr>"

definition mounted_io :: "(string \<rightharpoonup> 'i list) \<Rightarrow> 'i dashboard" where
  "mounted_io m =
     \<lparr>instructionsByScenario = m, patientConnected = False, viewMode = ViewList,
      activeScenarioId = None, currentStepIndex = 0\<rparr>"

section \<open>Patient display, peer-to-peer (\<^verbatim>\<open>part_003\<close>)\<close>

text \<open>
  JavaScript numbers are IEEE 754 doubles. \<open>to_double\<close> rounds a real number to the
  nearest double, ties to even: a double has 53 significant bits, and below the binade of
  \<open>pow2 (- 1022)\<close> the spacing stays that of the subnormal numbers. Overflow is not
  modelled; the numbers at hand are below 16384.
\<close>

definition pow2 :: "int \<Rightarrow> real" where
  "pow2 e = (if 0 \<le> e then 2 ^ nat e else 1 / 2 ^ nat (- e))"

text \<open>The binade of a positive number: the \<open>k\<close> with \<open>pow2 k \<le> x < pow2 (k + 1)\<close>.\<close>

definition floor_log2 :: "real \<Rightarrow> int" where
  "floor_log2 x = (if 1 \<le> x then bitlen \<lfloor>x\<rfloor> - 1 else - bitlen (\<lceil>1 / x\<rceil> - 1))"

definition round_half_even :: "real \<Rightarrow> int" where
  "round_half_even q =
     (let f = \<lfloor>q\<rfloor>
      in if q - of_int f < 1/2 then f
         else if 1/2 < q - of_int f then f + 1
         else if even f then f else f + 1)"

definition ulp_exponent :: "real \<Rightarrow> int" where
  "ulp_exponent x = max (floor_log2 x) (- 1022) - 52"

definition round_magnitude :: "real \<Rightarrow> real" where
  "round_magnitude x =
     (if x \<le> 0 then 0
      else of_int (round_half_even (x / pow2 (ulp_exponent x))) * pow2 (ulp_exponent x))"

definition to_double :: "real \<Rightarrow> real" where
  "to_double x = (if x < 0 then - round_magnitude (- x) else round_magnitude x)"

text \<open>
  \<^verbatim>\<open>Math.floor(1000 + Math.random() * 9000)\<close>, for the double \<open>r\<close> that
  \<^verbatim>\<open>Math.random()\<close> returns: the product and the sum are rounded, the floor is exact.
\<close>

definition generate_code :: "real \<Rightarrow> int" where
  "generate_code r = \<lfloor>to_double (1000 + to_double (r * 9000))\<rfloor>"

text \<open>\<^verbatim>\<open>Number.prototype.toString\<close> on an integer value: its decimal digits.\<close>

definition digit_char :: "nat \<Rightarrow> char" where
  "digit_char d = ''0123456789'' ! d"

fun digits_of :: "nat \<Rightarrow> string" where
  "digits_of n = (if n < 10 then [digit_char n]
                  else digits_of (n div 10) @ [digit_char (n mod 10)])"

definition toString :: "int \<Rightarrow> string" where
  "toString i = (if i < 0 then CHR ''-'' # digits_of (nat (- i)) else digits_of (nat i))"

definition is_digit :: "char \<Rightarrow> bool" where
  "is_digit c = (c \<in> set ''0123456789'')"

text \<open>
  \<^verbatim>\<open>new Blob(parts, {type})\<close>: the parts concatenated; a type with a character outside
  U+0020..U+007E becomes empty, any other type is put in ASCII lower case.
\<close>

definition ascii_lower :: "char \<Rightarrow> char" where
  "ascii_lower c =
     (case map_of (zip ''ABCDEFGHIJKLMNOPQRSTUVWXYZ'' ''abcdefghijklmnopqrstuvwxyz'') c of
        None \<Rightarrow> c
      | Some l \<Rightarrow> l)"

definition normalise_type :: "string \<Rightarrow> string" where
  "normalise_type t =
     (if list_all (\<lambda>c. (32::nat) \<le> of_char c \<and> of_char c \<le> (126::nat)) t
      then map ascii_lower t else [])"

definition Blob_new :: "bytes list \<Rightarrow> string \<Rightarrow> blob" where
  "Blob_new parts t = \<lparr>blob_bytes = concat parts, blob_type = normalise_type t\<rparr>"

text \<open>
  The component state. An object URL is modelled by the blob it designates;
  \<open>listening_on\<close> is the id given to \<^verbatim>\<open>new Peer\<close>.
\<close>

record patient_display =
  d_instruction :: "payload option"
  peerId :: string
  isConnected :: bool
  mediaUrl :: "blob option"
  listening_on :: string

definition display_mount :: "real \<Rightarrow> patient_display" where
  "display_mount r =
     (let code = toString (generate_code r);
          fullId = ''radio-patient-'' @ code
      in \<lparr>d_instruction = None, peerId = code, isConnected = False, mediaUrl = None,
          listening_on = fullId\<rparr>)"

text \<open>The effect that follows every change of \<^verbatim>\<open>instruction\<close>.\<close>

definition media_effect :: "patient_display \<Rightarrow> patient_display" where
  "media_effect d =
     (case d_instruction d of
        None \<Rightarrow> d\<lparr>mediaUrl := None\<rparr>
      | Some i \<Rightarrow>
          (case p_media i of
             None \<Rightarrow> d\<lparr>mediaUrl := None\<rparr>
           | Some buf \<Rightarrow>
               d\<lparr>mediaUrl :=
                    Some (Blob_new [buf]
                      (if truthy_str (p_media_type i) then the (p_media_type i)
                       else ''application/octet-stream''))\<rparr>))"

definition d_on_open :: "patient_display \<Rightarrow> patient_display" where
  "d_on_open d = d\<lparr>isConnected := True\<rparr>"

definition d_on_data :: "peer_msg \<Rightarrow> patient_display \<Rightarrow> patient_display" where
  "d_on_data m d =
     media_effect (case m of MsgInstruction p \<Rightarrow> d\<lparr>d_instruction := Some p\<rparr>
                           | MsgClear \<Rightarrow> d\<lparr>d_instruction := None\<rparr>)"

definition d_on_close :: "patient_display \<Rightarrow> patient_display" where
  "d_on_close d = media_effect (d\<lparr>isConnected := False, d_instruction := None\<rparr>)"

text \<open>The objects sent on an open connection arrive in order.\<close>

definition deliver :: "peer_msg list \<Rightarrow> patient_display \<Rightarrow> patient_display" where
  "deliver ms d = foldl (\<lambda>d m. d_on_data m d) d ms"

text \<open>
  The data connection serialises each object and rebuilds it on the display's side. PeerJS
  is not part of the repository: what arrives for a payload that was sent is given by a
  parameter \<open>wire\<close>.
\<close>

definition deliver_via ::
  "(payload \<Rightarrow> payload) \<Rightarrow> peer_msg list \<Rightarrow> patient_display \<Rightarrow> patient_display" where
  "deliver_via wire ms d =
     foldl (\<lambda>d m. d_on_data (case m of MsgInstruction p \<Rightarrow> MsgInstruction (wire p)
                                      | MsgClear \<Rightarrow> MsgClear) d) d ms"

text \<open>\<^verbatim>\<open>media_type?.startsWith('video/')\<close> chooses between the video and the image element.\<close>

datatype media_kind = Image | Video

definition kind_of :: "string option \<Rightarrow> media_kind" where
  "kind_of mt =
     (case mt of None \<Rightarrow> Image
      | Some t \<Rightarrow> if take 6 t = ''video/'' then Video else Image)"

subsection \<open>\<^verbatim>\<open>isNaN(Number(text))\<close>\<close>

text \<open>
  \<^verbatim>\<open>Number\<close> applied to a string is NaN exactly when the string, trimmed of white space,
  is neither empty nor a \<^verbatim>\<open>StrNumericLiteral\<close> of ECMAScript. Strings are sequences of
  8-bit code units here, so of the white space of ECMAScript only U+0009..U+000D, U+0020
  and U+00A0 can occur.
\<close>

definition is_ws :: "char \<Rightarrow> bool" where
  "is_ws c = (of_char c \<in> {9::nat, 10, 11, 12, 13, 32, 160})"

definition trim :: "string \<Rightarrow> string" where
  "trim s = rev (dropWhile is_ws (rev (dropWhile is_ws s)))"

definition strip_sign :: "string \<Rightarrow> string" where
  "strip_sign s =
     (case s of [] \<Rightarrow> []
      | c # r \<Rightarrow> if c = CHR ''+'' \<or> c = CHR ''-'' then r else s)"

definition ExponentPart_opt :: "string \<Rightarrow> bool" where
  "ExponentPart_opt r =
     (case r of [] \<Rightarrow> True
      | c # r' \<Rightarrow> (c = CHR ''e'' \<or> c = CHR ''E'') \<and>
                  (let ds = strip_sign r' in ds \<noteq> [] \<and> list_all is_digit ds))"

definition StrUnsignedDecimalLiteral :: "string \<Rightarrow> bool" where
  "StrUnsignedDecimalLiteral u =
     (u = ''Infinity'' \<or>
      (let ip = takeWhile is_digit u; r = dropWhile is_digit u
       in case r of
            [] \<Rightarrow> ip \<noteq> []
          | c # r2 \<Rightarrow>
              if c = CHR ''.''
              then (let fp = takeWhile is_digit r2; r3 = dropWhile is_digit r2
                    in (ip \<noteq> [] \<or> fp \<noteq> []) \<and> ExponentPart_opt r3)
              else ip \<noteq> [] \<and> ExponentPart_opt r))"

definition NonDecimalIntegerLiteral :: "string \<Rightarrow> bool" where
  "NonDecimalIntegerLiteral u =
     (case u of
        z # x # ds \<Rightarrow>
          z = CHR ''0'' \<and> ds \<noteq> [] \<and>
          ((x \<in> set ''bB'' \<and> list_all (\<lambda>c. c \<in> set ''01'') ds) \<or>
           (x \<in> set ''oO'' \<and> list_all (\<lambda>c. c \<in> set ''01234567'') ds) \<or>
           (x \<in> set ''xX'' \<and> list_all (\<lambda>c. c \<in> set ''0123456789abcdefABCDEF'') ds))
      | _ \<Rightarrow> False)"

definition StrNumericLiteral :: "string \<Rightarrow> bool" where
  "StrNumericLiteral u =
     (NonDecimalIntegerLiteral u \<or> StrUnsignedDecimalLiteral (strip_sign u))"

definition isNaN_Number :: "string \<Rightarrow> bool" where
  "isNaN_Number s = (let t = trim s in t \<noteq> [] \<and> \<not> StrNumericLiteral t)"

text \<open>
  The condition on the \<^verbatim>\<open>h1\<close> that renders the label, once the media effect has run:
  \<^verbatim>\<open>!mediaUrl || isNaN(Number(instruction.name))\<close>, inside \<^verbatim>\<open>instruction ? ...\<close>.
\<close>

definition label_shown :: "patient_display \<Rightarrow> bool" where
  "label_shown d =
     (case d_instruction d of None \<Rightarrow> False
      | Some i \<Rightarrow> mediaUrl d = None \<or> isNaN_Number (p_name i))"

section \<open>Patient display, relayed (\<^verbatim>\<open>part_000\<close>)\<close>

text \<open>
  Its only state is the instruction; \<^verbatim>\<open>play_instruction\<close> sets it and
  \<^verbatim>\<open>clear_instruction\<close> resets it. The label condition is
  \<^verbatim>\<open>!instruction.media_url || isNaN(Number(instruction.name))\<close>.
\<close>

definition on_play_instruction ::
  "url_instruction \<Rightarrow> url_instruction option \<Rightarrow> url_instruction option" where
  "on_play_instruction data shown = Some data"

definition on_clear_instruction_display ::
  "url_instruction option \<Rightarrow> url_instruction option" where
  "on_clear_instruction_display shown = None"

definition label_shown_io :: "url_instruction option \<Rightarrow> bool" where
  "label_shown_io shown =
     (case shown of None \<Rightarrow> False
      | Some i \<Rightarrow> \<not> truthy_str (media_url i) \<or> isNaN_Number (u_name i))"

section \<open>Relay server (\<^verbatim>\<open>part_001\<close>)\<close>

text \<open>
  The argument of \<^verbatim>\<open>send_instruction\<close> is untyped: any JSON value can arrive. The
  consoles of this repository send instruction objects.
\<close>

datatype jsval = JUndefined | JNull | JBool bool | JNum int | JStr string
  | JObj url_instruction

fun truthy :: "jsval \<Rightarrow> bool" where
  "truthy JUndefined = False"
| "truthy JNull = False"
| "truthy (JBool b) = b"
| "truthy (JNum n) = (n \<noteq> 0)"
| "truthy (JStr s) = (s \<noteq> [])"
| "truthy (JObj obj) = True"

text \<open>\<^verbatim>\<open>instruction && instruction.id\<close>: only an object has an \<^verbatim>\<open>id\<close>.\<close>

fun truthy_id :: "jsval \<Rightarrow> bool" where
  "truthy_id (JObj obj) = (u_id obj \<noteq> [])"
| "truthy_id _ = False"

datatype room = Patient_room | Staff_room

datatype server_msg =
    Patient_status bool
  | Play_instruction jsval
  | Clear_instruction_msg
  | History_updated

text \<open>\<^verbatim>\<open>io.emit\<close>, \<^verbatim>\<open>socket.emit\<close> and \<^verbatim>\<open>io.to(room).emit\<close>; sockets are numbered.\<close>

datatype emission =
    To_all server_msg
  | To_socket nat server_msg
  | To_room room server_msg

text \<open>
  The two module variables, the members of the two rooms, and the instruction ids
  inserted into the history table.
\<close>

record server =
  srv_patientConnected :: bool
  currentInstruction :: jsval
  patient_room :: "nat list"
  staff_room :: "nat list"
  history :: "string list"

definition server_start :: server where
  "server_start =
     \<lparr>srv_patientConnected = False, currentInstruction = JNull, patient_room = [],
      staff_room = [], history = []\<rparr>"

definition on_register_role :: "nat \<Rightarrow> string \<Rightarrow> server \<Rightarrow> server \<times> emission list" where
  "on_register_role socket role sv =
     (if role = ''patient''
      then (sv\<lparr>srv_patientConnected := True,
                patient_room := List.insert socket (patient_room sv)\<rparr>,
            To_all (Patient_status True) #
            (if truthy (currentInstruction sv)
             then [To_socket socket (Play_instruction (currentInstruction sv))] else []))
      else if role = ''staff''
      then (sv\<lparr>staff_room := List.insert socket (staff_room sv)\<rparr>,
            [To_socket socket (Patient_status (srv_patientConnected sv))])
      else (sv, []))"

definition on_send_instruction :: "jsval \<Rightarrow> server \<Rightarrow> server \<times> emission list" where
  "on_send_instruction instr sv =
     (sv\<lparr>currentInstruction := instr,
         history := (if truthy instr \<and> truthy_id instr
                     then history sv @ [case instr of JObj obj \<Rightarrow> u_id obj | _ \<Rightarrow> []]
                     else history sv)\<rparr>,
      [To_room Patient_room (Play_instruction instr), To_room Staff_room History_updated])"

definition on_clear_instruction :: "server \<Rightarrow> server \<times> emission list" where
  "on_clear_instruction sv =
     (sv\<lparr>currentInstruction := JNull\<rparr>, [To_room Patient_room Clear_instruction_msg])"

text \<open>
  A socket that disconnects has left its rooms when \<^verbatim>\<open>disconnect\<close> fires; the handler
  only arms a timer, whose callback is \<open>disconnect_timer\<close>.
\<close>

definition on_disconnect :: "nat \<Rightarrow> server \<Rightarrow> server \<times> emission list" where
  "on_disconnect socket sv =
     (sv\<lparr>patient_room := removeAll socket (patient_room sv),
         staff_room := removeAll socket (staff_room sv)\<rparr>, [])"

definition disconnect_timer :: "server \<Rightarrow> server \<times> emission list" where
  "disconnect_timer sv =
     (let isPatientConnected = (length (patient_room sv) > 0)
      in if srv_patientConnected sv \<noteq> isPatientConnected
         then (sv\<lparr>srv_patientConnected := isPatientConnected\<rparr>,
               [To_all (Patient_status isPatientConnected)])
         else (sv, []))"

datatype event =
    Register_role nat string
  | Send_instruction nat jsval
  | Clear_instruction nat
  | Disconnect nat
  | Disconnect_timer

fun handle :: "server \<Rightarrow> event \<Rightarrow> server \<times> emission list" where
  "handle sv (Register_role socket role) = on_register_role socket role sv"
| "handle sv (Send_instruction socket instr) = on_send_instruction instr sv"
| "handle sv (Clear_instruction socket) = on_clear_instruction sv"
| "handle sv (Disconnect socket) = on_disconnect socket sv"
| "handle sv Disconnect_timer = disconnect_timer sv"

fun serve :: "server \<Rightarrow> event list \<Rightarrow> server" where
  "serve sv [] = sv"
| "serve sv (e # es) = serve (fst (handle sv e)) es"

text \<open>
  What the stored instruction should be after a sequence of events, in the words of the
  specification: the payload of the most recent \<^verbatim>\<open>send_instruction\<close> if no
  \<^verbatim>\<open>clear_instruction\<close> has followed it, and null otherwise.
\<close>

fun sets_or_clears :: "event \<Rightarrow> bool" where
  "sets_or_clears (Send_instruction socket instr) = True"
| "sets_or_clears (Clear_instruction socket) = True"
| "sets_or_clears _ = False"

definition last_known_instruction :: "event list \<Rightarrow> jsval" where
  "last_known_instruction es =
     (case filter sets_or_clears (rev es) of
        Send_instruction socket instr # _ \<Rightarrow> instr
      | _ \<Rightarrow> JNull)"

fun is_send :: "event \<Rightarrow> bool" where
  "is_send (Send_instruction socket instr) = True"
| "is_send _ = False"

section \<open>Example data\<close>

text \<open>
  A scenario of three placeholder steps, as \<^verbatim>\<open>createScenario\<close> makes them, and a
  scenario whose steps have all been deleted; a console that holds both, before and
  after pairing with the display whose code is 1234.
\<close>

definition step_n :: "string \<Rightarrow> instruction" where
  "step_n t = \<lparr>inst_id = ''i'' @ t, scenario_id = ''s1'', name = t, media = None,
               media_type = None, bg_color = ''bg-slate-900''\<rparr>"

definition thorax :: "string \<rightharpoonup> instruction list" where
  "thorax = [''s1'' \<mapsto> [step_n ''1'', step_n ''2'', step_n ''3''], ''s2'' \<mapsto> []]"

definition paired :: "instruction peer_dashboard" where
  "paired = conn_on_open ''radio-patient-1234'' (mounted thorax)"

text \<open>A step with an attached PNG image, as \<^verbatim>\<open>handleSaveInstruction\<close> stores it.\<close>

definition png_step :: instruction where
  "png_step =
     \<lparr>inst_id = ''i7'', scenario_id = ''s1'', name = ''7'',
      media = Some \<lparr>blob_bytes = [0x89, 0x50, 0x4E, 0x47], blob_type = ''image/png''\<rparr>,
      media_type = Some ''image/png'', bg_color = ''bg-slate-900''\<rparr>"

text \<open>
  On the relay: a step with an image; a display that registers, is sent the step and
  drops off; a session that is cleared.
\<close>

definition step_a :: url_instruction where
  "step_a = \<lparr>u_id = ''a1'', u_scenario_id = ''s1'', u_name = ''1'',
             media_url = Some ''/uploads/a.png'', u_media_type = Some ''image'',
             u_bg_color = ''bg-blue-500''\<rparr>"

definition reconnect_events :: "event list" where
  "reconnect_events =
     [Register_role 1 ''patient'', Register_role 2 ''staff'',
      Send_instruction 2 (JObj step_a), Disconnect 1, Disconnect_timer]"

definition cleared_events :: "event list" where
  "cleared_events =
     [Register_role 2 ''staff'', Send_instruction 2 (JObj step_a), Clear_instruction 2,
      Disconnect_timer]"

text \<open>A show whose step carries an image and the given label.\<close>

definition show_with_media :: "string \<Rightarrow> payload" where
  "show_with_media t =
     \<lparr>p_id = ''i7'', p_name = t, p_media = Some [0x89, 0x50, 0x4E, 0x47],
      p_media_type = Some ''image/png'', p_bg_color = ''bg-slate-900''\<rparr>"

text \<open>The three-step scenario after its last step has been deleted in the store.\<close>

definition thorax_shrunk :: "string \<rightharpoonup> instruction list" where
  "thorax_shrunk = [''s1'' \<mapsto> [step_n ''1'', step_n ''2''], ''s2'' \<mapsto> []]"

section \<open>The session state machine\<close>

lemmas console_defs = startSession_def endSession_def goToStep_def next_step_def
  previous_step_def sendInstruction_def clearInstruction_def link_up_def steps_of_def
  truthy_str_def setInstructionsByScenario_def Let_def

lemmas console_io_defs = startSession_io_def endSession_io_def goToStep_io_def
  socket_emit_def steps_of_def truthy_str_def setInstructionsByScenario_def Let_def

lemmas bounds_defs = bound_when_steps_def cursor_in_bounds_def is_active_def active_steps_def

lemmas example_defs = paired_def thorax_def thorax_shrunk_def step_n_def mounted_def
  mounted_io_def conn_on_open_def

subsection \<open>What a send leaves alone\<close>

lemma sendInstruction_frame:
  "activeScenarioId (fst (sendInstruction st inst)) = activeScenarioId st"
  "currentStepIndex (fst (sendInstruction st inst)) = currentStepIndex st"
  "instructionsByScenario (fst (sendInstruction st inst)) = instructionsByScenario st"
  "viewMode (fst (sendInstruction st inst)) = viewMode st"
  "connRef (fst (sendInstruction st inst)) = connRef st"
  "patientConnected (fst (sendInstruction st inst)) = patientConnected st"
  by (simp_all add: sendInstruction_def split: option.splits)

lemma startSession_state:
  "activeScenarioId (fst (startSession st sid)) = Some sid"
  "currentStepIndex (fst (startSession st sid)) = 0"
  "instructionsByScenario (fst (startSession st sid)) = instructionsByScenario st"
  by (simp_all add: startSession_def Let_def sendInstruction_frame)

lemma startSession_steps: "steps_of (fst (startSession st sid)) x = steps_of st x"
  by (simp add: steps_of_def startSession_state)

lemma startSession_io_state:
  "activeScenarioId (fst (startSession_io sock st sid)) = Some sid"
  "currentStepIndex (fst (startSession_io sock st sid)) = 0"
  "steps_of (fst (startSession_io sock st sid)) x = steps_of st x"
  by (simp_all add: startSession_io_def Let_def steps_of_def)

lemma goToStep_state:
  "activeScenarioId (fst (goToStep st i)) = activeScenarioId st"
  "instructionsByScenario (fst (goToStep st i)) = instructionsByScenario st"
  "currentStepIndex (fst (goToStep st i)) =
     (if is_active st \<and> 0 \<le> i \<and> i < int (length (active_steps st)) then i
      else currentStepIndex st)"
  by (auto simp: goToStep_def Let_def sendInstruction_frame is_active_def active_steps_def
        truthy_str_def split: option.splits)

lemma goToStep_io_state:
  "activeScenarioId (fst (goToStep_io sock st i)) = activeScenarioId st"
  "instructionsByScenario (fst (goToStep_io sock st i)) = instructionsByScenario st"
  "currentStepIndex (fst (goToStep_io sock st i)) =
     (if is_active st \<and> 0 \<le> i \<and> i < int (length (active_steps st)) then i
      else currentStepIndex st)"
  by (auto simp: goToStep_io_def Let_def is_active_def active_steps_def
        truthy_str_def split: option.splits)

lemma run_append: "run st (as @ bs) = run (run st as) bs"
  by (induction as arbitrary: st) simp_all

lemma run_io_append: "run_io sock st (as @ bs) = run_io sock (run_io sock st as) bs"
  by (induction as arbitrary: st) simp_all

subsection \<open>The cursor bound, action by action\<close>

lemma goToStep_in_bounds: "cursor_in_bounds st \<Longrightarrow> cursor_in_bounds (fst (goToStep st i))"
  by (auto simp: cursor_in_bounds_def is_active_def active_steps_def steps_of_def
        goToStep_state truthy_str_def split: option.splits)

lemma goToStep_io_in_bounds:
  "cursor_in_bounds st \<Longrightarrow> cursor_in_bounds (fst (goToStep_io sock st i))"
  by (auto simp: cursor_in_bounds_def is_active_def active_steps_def steps_of_def
        goToStep_io_state truthy_str_def split: option.splits)



















text \<open>
  Nor does the bound survive a refresh: on the last of three steps, the scenario is
  reloaded with two steps; the session stays active on it with the cursor at index 2.
\<close>

theorem refresh_leaves_cursor_out_of_bounds:
  "cursor_in_bounds (run paired [Start ''s1'', Next, Next]) \<and>
   is_active (run paired [Start ''s1'', Next, Next, Refresh thorax_shrunk]) \<and>
   length (active_steps (run paired [Start ''s1'', Next, Next, Refresh thorax_shrunk])) = 2 \<and>
   currentStepIndex (run paired [Start ''s1'', Next, Next, Refresh thorax_shrunk]) = 2 \<and>
   \<not> cursor_in_bounds (run paired [Start ''s1'', Next, Next, Refresh thorax_shrunk]) \<and>
   \<not> cursor_in_bounds
       (run_io True (mounted_io thorax) [Start ''s1'', Next, Next, Refresh thorax_shrunk])"
  by (simp add: console_defs console_io_defs example_defs bounds_defs)

text \<open>
  Claim C2. Starting a scenario that has at least one step sets the cursor to 0 and hands
  the first step to the send routine (\<^verbatim>\<open>sendInstruction\<close>, or \<^verbatim>\<open>socket?.emit\<close> in the
  relayed console). On the peer-to-peer console with the link up, a first step without
  media is put on the link at once, as exactly one show of that step; a first step with
  media is suspended until its buffer is there, and the suspended send then puts exactly
  one show of that step on the link. With the link down nothing is sent. Starting a
  scenario without steps sends nothing and suspends nothing.
\<close>

theorem startSession_delivers_first_step:
  "(steps_of st sid \<noteq> [] \<longrightarrow>
      currentStepIndex (fst (startSession st sid)) = 0 \<and>
      activeScenarioId (fst (startSession st sid)) = Some sid \<and>
      startSession st sid
        = sendInstruction
            (st\<lparr>activeScenarioId := Some sid, currentStepIndex := 0, viewMode := ViewSession\<rparr>)
            (hd (steps_of st sid)) \<and>
      (link_up st \<and> media (hd (steps_of st sid)) = None \<longrightarrow>
         snd (startSession st sid) = [MsgInstruction (to_payload (hd (steps_of st sid)))] \<and>
         awaiting (fst (startSession st sid)) = awaiting st) \<and>
      (link_up st \<and> media (hd (steps_of st sid)) \<noteq> None \<longrightarrow>
         snd (startSession st sid) = [] \<and>
         awaiting (fst (startSession st sid)) = awaiting st @ [hd (steps_of st sid)] \<and>
         snd (sendInstruction_resume (length (awaiting st)) (fst (startSession st sid)))
           = Inr [MsgInstruction (to_payload (hd (steps_of st sid)))]) \<and>
      (\<not> link_up st \<longrightarrow>
         snd (startSession st sid) = [] \<and>
         awaiting (fst (startSession st sid)) = awaiting st)) \<and>
   (steps_of su sid \<noteq> [] \<longrightarrow>
      currentStepIndex (fst (startSession_io sock su sid)) = 0 \<and>
      activeScenarioId (fst (startSession_io sock su sid)) = Some sid \<and>
      snd (startSession_io sock su sid)
        = socket_emit sock (Emit_send_instruction (hd (steps_of su sid))) \<and>
      (sock \<longrightarrow>
         snd (startSession_io sock su sid) = [Emit_send_instruction (hd (steps_of su sid))])) \<and>
   (steps_of st sid = [] \<longrightarrow>
      snd (startSession st sid) = [] \<and> awaiting (fst (startSession st sid)) = awaiting st) \<and>
   (steps_of su sid = [] \<longrightarrow> snd (startSession_io sock su sid) = [])"
proof (intro conjI impI)
  assume ne: "steps_of st sid \<noteq> []"
  let ?st' = "st\<lparr>activeScenarioId := Some sid, currentStepIndex := 0, viewMode := ViewSession\<rparr>"
  show "currentStepIndex (fst (startSession st sid)) = 0"
    and "activeScenarioId (fst (startSession st sid)) = Some sid"
    by (simp_all add: startSession_state)
  show eq: "startSession st sid = sendInstruction ?st' (hd (steps_of st sid))"
    using ne by (simp add: startSession_def Let_def hd_conv_nth)
  have l: "link_up ?st' = link_up st" and w: "awaiting ?st' = awaiting st"
    and c: "connRef ?st' = connRef st"
    by (simp_all add: link_up_def)
  {
    assume a: "link_up st \<and> media (hd (steps_of st sid)) = None"
    then show "snd (startSession st sid) = [MsgInstruction (to_payload (hd (steps_of st sid)))]"
      and "awaiting (fst (startSession st sid)) = awaiting st"
      unfolding eq by (simp_all add: sendInstruction_def l)
  }
  {
    assume a: "link_up st \<and> media (hd (steps_of st sid)) \<noteq> None"
    then obtain b where b: "media (hd (steps_of st sid)) = Some b" by auto
    from a have cr: "connRef st \<noteq> None" by (simp add: link_up_def)
    show "snd (startSession st sid) = []"
      and aw: "awaiting (fst (startSession st sid)) = awaiting st @ [hd (steps_of st sid)]"
      unfolding eq using a b by (simp_all add: sendInstruction_def l)
    have "connRef (fst (startSession st sid)) = connRef st"
      unfolding eq by (simp add: sendInstruction_frame)
    then show "snd (sendInstruction_resume (length (awaiting st)) (fst (startSession st sid)))
                 = Inr [MsgInstruction (to_payload (hd (steps_of st sid)))]"
      using cr by (auto simp: sendInstruction_resume_def aw Let_def split: option.splits)
  }
  {
    assume a: "\<not> link_up st"
    then show "snd (startSession st sid) = []"
      and "awaiting (fst (startSession st sid)) = awaiting st"
      unfolding eq by (simp_all add: sendInstruction_def l)
  }
next
  assume "steps_of su sid \<noteq> []"
  then show "currentStepIndex (fst (startSession_io sock su sid)) = 0"
    and "activeScenarioId (fst (startSession_io sock su sid)) = Some sid"
    and e: "snd (startSession_io sock su sid)
          = socket_emit sock (Emit_send_instruction (hd (steps_of su sid)))"
    by (simp_all add: startSession_io_def Let_def hd_conv_nth)
  show "snd (startSession_io sock su sid) = [Emit_send_instruction (hd (steps_of su sid))]"
    if sock
    using that e by (simp add: socket_emit_def)
next
  assume "steps_of st sid = []"
  then show "snd (startSession st sid) = []"
    and "awaiting (fst (startSession st sid)) = awaiting st"
    by (simp_all add: startSession_def Let_def)
next
  assume "steps_of su sid = []"
  then show "snd (startSession_io sock su sid) = []"
    by (simp add: startSession_io_def Let_def)
qed

text \<open>
  The paired console starts the three-step scenario, whose steps have no media, and the
  display is sent step 1; it starts the scenario without steps and nothing is sent.
\<close>

theorem startSession_delivers_first_step_witness:
  "steps_of paired ''s1'' \<noteq> [] \<and> link_up paired \<and>
   media (hd (steps_of paired ''s1'')) = None \<and>
   currentStepIndex (fst (startSession paired ''s1'')) = 0 \<and>
   snd (startSession paired ''s1'') = [MsgInstruction (to_payload (step_n ''1''))] \<and>
   steps_of (mounted_io thorax) ''s1'' \<noteq> [] \<and>
   snd (startSession_io True (mounted_io thorax) ''s1'') = [Emit_send_instruction (step_n ''1'')] \<and>
   steps_of paired ''s2'' = [] \<and> snd (startSession paired ''s2'') = [] \<and>
   steps_of (mounted_io thorax) ''s2'' = [] \<and>
   snd (startSession_io True (mounted_io thorax) ''s2'') = []"
proof -
  have h1: "steps_of paired ''s1'' \<noteq> []" and h2: "link_up paired"
    and h3: "steps_of (mounted_io thorax) ''s1'' \<noteq> []"
    and h4: "steps_of paired ''s2'' = []" and h5: "steps_of (mounted_io thorax) ''s2'' = []"
    and h6: "hd (steps_of paired ''s1'') = step_n ''1''"
    and h7: "hd (steps_of (mounted_io thorax) ''s1'') = step_n ''1''"
    and h8: "media (hd (steps_of paired ''s1'')) = None"
    by (simp_all add: example_defs steps_of_def link_up_def)
  note first = startSession_delivers_first_step [of paired "''s1''" "mounted_io thorax" True]
  note none = startSession_delivers_first_step [of paired "''s2''" "mounted_io thorax" True]
  have p0: "currentStepIndex (fst (startSession paired ''s1'')) = 0 \<and>
      snd (startSession paired ''s1'')
        = [MsgInstruction (to_payload (hd (steps_of paired ''s1'')))]"
    using first h1 h2 h8 by blast
  have q0: "snd (startSession_io True (mounted_io thorax) ''s1'')
              = [Emit_send_instruction (hd (steps_of (mounted_io thorax) ''s1''))]"
    using first h3 by blast
  have e: "snd (startSession paired ''s2'') = []"
    "snd (startSession_io True (mounted_io thorax) ''s2'') = []"
    using none h4 h5 by blast+
  note p = p0 [unfolded h6] and q = q0 [unfolded h7]
  show ?thesis
    by (intro conjI) (rule h1 h2 h8 p [THEN conjunct1] p [THEN conjunct2] q h3 h4 h5 e)+
qed

text \<open>
  The same start on a first step that carries an image: nothing is on the link when
  \<^verbatim>\<open>startSession\<close> returns, and the show follows when the buffer is there.
\<close>

lemma startSession_with_media_example:
  "snd (startSession (paired\<lparr>instructionsByScenario := [''s3'' \<mapsto> [png_step]]\<rparr>) ''s3'') = [] \<and>
   awaiting (fst (startSession (paired\<lparr>instructionsByScenario := [''s3'' \<mapsto> [png_step]]\<rparr>)
                    ''s3'')) = [png_step] \<and>
   snd (sendInstruction_resume 0
          (fst (startSession (paired\<lparr>instructionsByScenario := [''s3'' \<mapsto> [png_step]]\<rparr>)
                  ''s3'')))
     = Inr [MsgInstruction (to_payload png_step)]"
  by (simp add: console_defs example_defs png_step_def sendInstruction_resume_def)

subsection \<open>Advancing to the last step\<close>

lemma advance_k:
  assumes "activeScenarioId s0 = Some sid" and "sid \<noteq> []" and "currentStepIndex s0 = 0"
    and "k < length (steps_of s0 sid)"
  shows "currentStepIndex (run s0 (replicate k Next)) = int k \<and>
         activeScenarioId (run s0 (replicate k Next)) = Some sid \<and>
         instructionsByScenario (run s0 (replicate k Next)) = instructionsByScenario s0"
  using assms(4)
proof (induction k)
  case 0
  then show ?case using assms(1,3) by simp
next
  case (Suc k)
  let ?s = "run s0 (replicate k Next)"
  have ih: "currentStepIndex ?s = int k" "activeScenarioId ?s = Some sid"
    "instructionsByScenario ?s = instructionsByScenario s0"
    using Suc by simp_all
  have "replicate (Suc k) (Next :: instruction action) = replicate k Next @ [Next]"
    by (simp add: replicate_append_same)
  then have step: "run s0 (replicate (Suc k) Next) = fst (goToStep ?s (int k + 1))"
    using ih(1) by (simp only: run_append run.simps act.simps next_step_def)
  have act: "is_active ?s" and steps: "active_steps ?s = steps_of s0 sid"
    using ih(2,3) assms(2) by (simp_all add: is_active_def truthy_str_def active_steps_def
        steps_of_def)
  show ?case
    unfolding step using Suc.prems act steps ih(2,3)
    by (simp add: goToStep_state add.commute)
qed

lemma next_at_last:
  assumes "activeScenarioId s = Some sid" and "sid \<noteq> []"
    and "currentStepIndex s = int (length (steps_of s sid)) - 1"
  shows "next_step s = (s, [])"
  using assms by (simp add: next_step_def goToStep_def truthy_str_def Let_def)

lemma advance_io_k:
  fixes s0 :: "('i, 'z) dashboard_scheme"
  assumes "activeScenarioId s0 = Some sid" and "sid \<noteq> []" and "currentStepIndex s0 = 0"
    and "k < length (steps_of s0 sid)"
  shows "run_io sock s0 (replicate k Next) = s0\<lparr>currentStepIndex := int k\<rparr>"
  using assms(4)
proof (induction k)
  case 0
  then show ?case using assms(3) by simp
next
  case (Suc k)
  then have "run_io sock s0 (replicate k Next) = s0\<lparr>currentStepIndex := int k\<rparr>" by simp
  moreover have "replicate (Suc k) (Next :: 'i action) = replicate k Next @ [Next]"
    by (simp add: replicate_append_same)
  ultimately have "run_io sock s0 (replicate (Suc k) Next)
      = fst (act_io sock (s0\<lparr>currentStepIndex := int k\<rparr>) Next)"
    by (simp only: run_io_append run_io.simps)
  also have "\<dots> = s0\<lparr>currentStepIndex := int (Suc k)\<rparr>"
    using Suc.prems assms(1,2)
    by (simp add: goToStep_io_def truthy_str_def Let_def steps_of_def add.commute)
  finally show ?case .
qed

text \<open>
  Claim C3. A session started on a scenario with \<open>N \<ge> 1\<close> steps (scenario ids are
  UUIDs, so never the empty string) reaches cursor \<open>N - 1\<close> after \<open>N - 1\<close> presses of
  Next, and one more press returns the same state and sends nothing, in both deployments.
\<close>

theorem advance_to_last_then_noop:
  fixes st :: "(instruction, 'z) peer_dashboard_scheme" and su :: "('i, 'y) dashboard_scheme"
  assumes "sid \<noteq> []"
  shows
   "(steps_of st sid \<noteq> [] \<longrightarrow>
       currentStepIndex (run (fst (startSession st sid))
                          (replicate (length (steps_of st sid) - 1) Next))
         = int (length (steps_of st sid)) - 1 \<and>
       act (run (fst (startSession st sid)) (replicate (length (steps_of st sid) - 1) Next)) Next
         = (run (fst (startSession st sid)) (replicate (length (steps_of st sid) - 1) Next), [])) \<and>
    (steps_of su sid \<noteq> [] \<longrightarrow>
       currentStepIndex (run_io sock (fst (startSession_io sock su sid))
                          (replicate (length (steps_of su sid) - 1) Next))
         = int (length (steps_of su sid)) - 1 \<and>
       act_io sock (run_io sock (fst (startSession_io sock su sid))
                      (replicate (length (steps_of su sid) - 1) Next)) Next
         = (run_io sock (fst (startSession_io sock su sid))
              (replicate (length (steps_of su sid) - 1) Next), []))"
proof (intro conjI impI)
  assume ne: "steps_of st sid \<noteq> []"
  let ?n = "length (steps_of st sid)"
  let ?s0 = "fst (startSession st sid)"
  let ?sN = "run ?s0 (replicate (?n - 1) Next)"
  have lt: "?n - 1 < length (steps_of ?s0 sid)"
    using ne by (simp add: startSession_steps)
  have last: "currentStepIndex ?sN = int (?n - 1)" "activeScenarioId ?sN = Some sid"
    "instructionsByScenario ?sN = instructionsByScenario ?s0"
    using advance_k [OF startSession_state(1) assms startSession_state(2) lt] by simp_all
  have n1: "int (?n - 1) = int ?n - 1"
    using ne by (cases "steps_of st sid") simp_all
  show "currentStepIndex ?sN = int ?n - 1"
    using last(1) n1 by simp
  have "steps_of ?sN sid = steps_of st sid"
    using last(3) by (simp add: steps_of_def startSession_state)
  then have "currentStepIndex ?sN = int (length (steps_of ?sN sid)) - 1"
    using last(1) n1 by simp
  then have "next_step ?sN = (?sN, [])"
    using last(2) assms by (intro next_at_last) simp_all
  then show "act ?sN Next = (?sN, [])" by simp
next
  assume ne: "steps_of su sid \<noteq> []"
  let ?n = "length (steps_of su sid)"
  let ?s0 = "fst (startSession_io sock su sid)"
  have lt: "?n - 1 < length (steps_of ?s0 sid)"
    using ne by (simp add: startSession_io_state)
  have last: "run_io sock ?s0 (replicate (?n - 1) Next)
                = ?s0\<lparr>currentStepIndex := int (?n - 1)\<rparr>"
    using advance_io_k [OF startSession_io_state(1) assms startSession_io_state(2) lt] .
  have n1: "int (?n - 1) = int ?n - 1"
    using ne by (cases "steps_of su sid") simp_all
  show "currentStepIndex (run_io sock ?s0 (replicate (?n - 1) Next)) = int ?n - 1"
    unfolding last n1 by simp
  have "goToStep_io sock (?s0\<lparr>currentStepIndex := int (?n - 1)\<rparr>) (int (?n - 1) + 1)
          = (?s0\<lparr>currentStepIndex := int (?n - 1)\<rparr>, [])"
    using ne assms
    unfolding n1
    by (simp add: goToStep_io_def startSession_io_def Let_def truthy_str_def
        steps_of_def)
  then show "act_io sock (run_io sock ?s0 (replicate (?n - 1) Next)) Next
               = (run_io sock ?s0 (replicate (?n - 1) Next), [])"
    unfolding last by simp
qed

text \<open>
  On the three-step scenario: two presses of Next reach cursor 2, and the third changes
  nothing and sends nothing.
\<close>

theorem advance_to_last_then_noop_witness:
  "''s1'' \<noteq> [] \<and> steps_of paired ''s1'' \<noteq> [] \<and> steps_of (mounted_io thorax) ''s1'' \<noteq> [] \<and>
   length (steps_of paired ''s1'') = 3 \<and>
   currentStepIndex (run (fst (startSession paired ''s1''))
                      (replicate (length (steps_of paired ''s1'') - 1) Next))
     = int (length (steps_of paired ''s1'')) - 1 \<and>
   act (run (fst (startSession paired ''s1''))
          (replicate (length (steps_of paired ''s1'') - 1) Next)) Next
     = (run (fst (startSession paired ''s1''))
          (replicate (length (steps_of paired ''s1'') - 1) Next), []) \<and>
   currentStepIndex (run_io True (fst (startSession_io True (mounted_io thorax) ''s1''))
                      (replicate (length (steps_of (mounted_io thorax) ''s1'') - 1) Next))
     = int (length (steps_of (mounted_io thorax) ''s1'')) - 1"
proof -
  have h1: "''s1'' \<noteq> []" by simp
  have h2: "steps_of paired ''s1'' \<noteq> []" and h3: "length (steps_of paired ''s1'') = 3"
    and h4: "steps_of (mounted_io thorax) ''s1'' \<noteq> []"
    by (simp_all add: example_defs steps_of_def)
  show ?thesis
    using h1 h2 h3 h4
      advance_to_last_then_noop [OF h1, of paired "mounted_io thorax" True]
    by blast
qed

text \<open>
  Claim C4, as the code has it. The second of two consecutive calls of \<^verbatim>\<open>endSession\<close>
  leaves the console state as the first call left it, and leaves the display as the first
  call's clear left it; but it sends the clear again whenever the link is up (the data
  connection is open, or the socket is set). On the relay the repeated clear leaves the
  stored instruction null.
\<close>

theorem endSession_twice:
  "fst (endSession (fst (endSession st))) = fst (endSession st) \<and>
   snd (endSession (fst (endSession st))) = (if link_up st then [MsgClear] else []) \<and>
   deliver (snd (endSession (fst (endSession st)))) (deliver (snd (endSession st)) d)
     = deliver (snd (endSession st)) d \<and>
   fst (endSession_io sock (fst (endSession_io sock su))) = fst (endSession_io sock su) \<and>
   snd (endSession_io sock (fst (endSession_io sock su)))
     = (if sock then [Emit_clear_instruction] else []) \<and>
   fst (on_clear_instruction (fst (on_clear_instruction sv))) = fst (on_clear_instruction sv) \<and>
   on_clear_instruction_display (on_clear_instruction_display shown)
     = on_clear_instruction_display shown"
  by (simp add: endSession_def endSession_io_def clearInstruction_def link_up_def
      socket_emit_def deliver_def d_on_data_def media_effect_def on_clear_instruction_def
      on_clear_instruction_display_def)

text \<open>
  Claim C4 as stated fails: the paired console, idle after a first \<^verbatim>\<open>endSession\<close>, sends
  a clear message to the display when \<^verbatim>\<open>endSession\<close> is called again.
\<close>

theorem endSession_idle_sends_clear:
  "\<not> is_active (fst (endSession paired)) \<and>
   snd (endSession (fst (endSession paired))) = [MsgClear]"
  by (simp add: console_defs example_defs bounds_defs)

section \<open>The relay\<close>

lemmas server_defs = on_register_role_def on_send_instruction_def on_clear_instruction_def
  on_disconnect_def disconnect_timer_def Let_def

lemma serve_append: "serve sv (es @ fs) = serve (serve sv es) fs"
  by (induction es arbitrary: sv) simp_all

lemma handle_currentInstruction:
  "currentInstruction (fst (handle sv e)) =
     (case e of Send_instruction socket instr \<Rightarrow> instr
      | Clear_instruction socket \<Rightarrow> JNull
      | _ \<Rightarrow> currentInstruction sv)"
  by (cases e) (simp_all add: server_defs)

lemma serve_keeps_currentInstruction:
  "\<forall>e \<in> set es. \<not> sets_or_clears e \<Longrightarrow>
   currentInstruction (serve sv es) = currentInstruction sv"
proof (induction es arbitrary: sv)
  case Nil
  then show ?case by simp
next
  case (Cons e es)
  then have "\<not> sets_or_clears e" by simp
  then have "currentInstruction (fst (handle sv e)) = currentInstruction sv"
    by (cases e) (simp_all add: server_defs)
  with Cons show ?case by simp
qed

lemma serve_no_send_null:
  "currentInstruction sv = JNull \<Longrightarrow> \<forall>e \<in> set es. \<not> is_send e \<Longrightarrow>
   currentInstruction (serve sv es) = JNull"
proof (induction es arbitrary: sv)
  case Nil
  then show ?case by simp
next
  case (Cons e es)
  then have "\<not> is_send e" by simp
  then have "currentInstruction (fst (handle sv e)) = JNull"
    using Cons.prems(1) by (cases e) (simp_all add: server_defs)
  with Cons show ?case by simp
qed

lemma last_known_snoc:
  "last_known_instruction (es @ [e]) =
     (case e of Send_instruction socket instr \<Rightarrow> instr
      | Clear_instruction socket \<Rightarrow> JNull
      | _ \<Rightarrow> last_known_instruction es)"
  by (cases e) (simp_all add: last_known_instruction_def)

lemma currentInstruction_serve:
  "currentInstruction sv = JNull \<Longrightarrow>
   currentInstruction (serve sv es) = last_known_instruction es"
proof (induction es rule: rev_induct)
  case Nil
  then show ?case by (simp add: last_known_instruction_def)
next
  case (snoc e es)
  then show ?case
    by (simp add: serve_append handle_currentInstruction last_known_snoc split: event.splits)
qed

lemma register_patient_emits:
  "snd (on_register_role socket ''patient'' sv) =
     To_all (Patient_status True) #
     (if truthy (currentInstruction sv)
      then [To_socket socket (Play_instruction (currentInstruction sv))] else [])"
  by (simp add: on_register_role_def)

text \<open>
  Claim C5. Once a \<^verbatim>\<open>send_instruction\<close> has carried an instruction (any truthy payload;
  an instruction object is one) and neither a clear nor another send has followed, a
  socket that registers as \<^verbatim>\<open>patient\<close> is at once sent that instruction as
  \<^verbatim>\<open>play_instruction\<close>, after the status broadcast and without any operator action.
\<close>

theorem replay_on_join:
  "truthy instr \<and> (\<forall>e \<in> set es2. \<not> sets_or_clears e) \<longrightarrow>
     snd (handle (serve sv (es1 @ Send_instruction c instr # es2))
            (Register_role socket ''patient''))
       = [To_all (Patient_status True), To_socket socket (Play_instruction instr)]"
proof
  assume a: "truthy instr \<and> (\<forall>e \<in> set es2. \<not> sets_or_clears e)"
  have "serve sv (es1 @ Send_instruction c instr # es2)
          = serve (fst (handle (serve sv es1) (Send_instruction c instr))) es2"
    by (simp add: serve_append)
  then have "currentInstruction (serve sv (es1 @ Send_instruction c instr # es2)) = instr"
    using a by (simp add: serve_keeps_currentInstruction on_send_instruction_def)
  then show "snd (handle (serve sv (es1 @ Send_instruction c instr # es2))
                    (Register_role socket ''patient''))
       = [To_all (Patient_status True), To_socket socket (Play_instruction instr)]"
    using a by (simp add: register_patient_emits)
qed

text \<open>
  The reconnect scenario: a display registers, the console sends step A, the display
  disconnects and the timer reports it gone; a display that registers then is sent step A.
\<close>

theorem replay_on_join_witness:
  "truthy (JObj step_a) \<and>
   snd (handle (serve server_start reconnect_events) (Register_role 3 ''patient''))
     = [To_all (Patient_status True), To_socket 3 (Play_instruction (JObj step_a))] \<and>
   srv_patientConnected (serve server_start reconnect_events) = False"
proof -
  have h1: "truthy (JObj step_a)" by simp
  have h2: "\<forall>e \<in> set [Disconnect 1, Disconnect_timer]. \<not> sets_or_clears e" by simp
  have e: "reconnect_events = [Register_role 1 ''patient'', Register_role 2 ''staff'']
             @ Send_instruction 2 (JObj step_a) # [Disconnect 1, Disconnect_timer]"
    by (simp add: reconnect_events_def)
  have h3: "srv_patientConnected (serve server_start reconnect_events) = False"
    by (simp add: reconnect_events_def server_start_def server_defs)
  show ?thesis
    using h1 h2 h3
      replay_on_join
        [where instr = "JObj step_a" and ?es2.0 = "[Disconnect 1, Disconnect_timer]"
           and sv = server_start and c = 2 and socket = 3
           and ?es1.0 = "[Register_role 1 ''patient'', Register_role 2 ''staff'']"]
    unfolding e [symmetric] by blast
qed

text \<open>
  Claim C10. From the start of the server on, the stored instruction is the payload of
  the most recent \<^verbatim>\<open>send_instruction\<close> if no \<^verbatim>\<open>clear_instruction\<close> has followed it, and
  null otherwise; so a display that registers before any send, or after a clear that no
  send has followed, is sent the status broadcast and no \<^verbatim>\<open>play_instruction\<close>.
\<close>

theorem stored_instruction_is_last_known:
  "currentInstruction (serve server_start es) = last_known_instruction es \<and>
   ((\<forall>e \<in> set es. \<not> is_send e) \<longrightarrow>
      snd (handle (serve server_start es) (Register_role socket ''patient''))
        = [To_all (Patient_status True)]) \<and>
   ((\<forall>e \<in> set es2. \<not> is_send e) \<longrightarrow>
      snd (handle (serve sv (es1 @ Clear_instruction c # es2)) (Register_role socket ''patient''))
        = [To_all (Patient_status True)])"
proof (intro conjI impI)
  show "currentInstruction (serve server_start es) = last_known_instruction es"
    by (simp add: currentInstruction_serve server_start_def)
  show "snd (handle (serve server_start es) (Register_role socket ''patient''))
        = [To_all (Patient_status True)]" if "\<forall>e \<in> set es. \<not> is_send e"
    using that serve_no_send_null [of server_start es]
    by (simp add: register_patient_emits server_start_def)
  show "snd (handle (serve sv (es1 @ Clear_instruction c # es2)) (Register_role socket ''patient''))
        = [To_all (Patient_status True)]" if "\<forall>e \<in> set es2. \<not> is_send e"
  proof -
    have "currentInstruction (fst (handle (serve sv es1) (Clear_instruction c))) = JNull"
      by (simp add: on_clear_instruction_def)
    then have "currentInstruction (serve sv (es1 @ Clear_instruction c # es2)) = JNull"
      using that by (simp add: serve_append serve_no_send_null)
    then show ?thesis by (simp add: register_patient_emits)
  qed
qed

text \<open>
  After the reconnect scenario the stored instruction is step A; after a cleared session,
  and on a server that was never sent an instruction, a registering display gets no replay.
\<close>

theorem stored_instruction_is_last_known_witness:
  "currentInstruction (serve server_start reconnect_events) = JObj step_a \<and>
   last_known_instruction reconnect_events = JObj step_a \<and>
   last_known_instruction cleared_events = JNull \<and>
   snd (handle (serve server_start [Register_role 2 ''staff'', Disconnect_timer])
          (Register_role 3 ''patient'')) = [To_all (Patient_status True)] \<and>
   snd (handle (serve server_start cleared_events) (Register_role 3 ''patient''))
     = [To_all (Patient_status True)]"
proof -
  have h1: "\<forall>e \<in> set [Register_role 2 ''staff'', Disconnect_timer]. \<not> is_send e" by simp
  have h2: "\<forall>e \<in> set [Disconnect_timer]. \<not> is_send e" by simp
  have e: "cleared_events = [Register_role 2 ''staff'', Send_instruction 2 (JObj step_a)]
             @ Clear_instruction 2 # [Disconnect_timer]"
    by (simp add: cleared_events_def)
  have l1: "last_known_instruction reconnect_events = JObj step_a"
    and l2: "last_known_instruction cleared_events = JNull"
    by (simp_all add: last_known_instruction_def reconnect_events_def cleared_events_def)
  show ?thesis
    using h1 h2 l1 l2
      stored_instruction_is_last_known
        [where es = reconnect_events and ?es2.0 = "[Disconnect_timer]" and socket = 3
           and sv = server_start and c = 2
           and ?es1.0 = "[Register_role 2 ''staff'', Send_instruction 2 (JObj step_a)]"]
      stored_instruction_is_last_known
        [where es = "[Register_role 2 ''staff'', Disconnect_timer]"
           and ?es2.0 = "[Disconnect_timer]" and socket = 3 and sv = server_start and c = 2
           and ?es1.0 = "[Register_role 2 ''staff'', Send_instruction 2 (JObj step_a)]"]
    unfolding e [symmetric] by simp
qed

section \<open>Loss of the transport\<close>

text \<open>
  Claim C7. When the data connection closes, the console marks the display disconnected
  (and forgets the connection) and keeps the active scenario, the cursor and the loaded
  steps; so does the relayed console on a \<^verbatim>\<open>patient_status\<close> of false, and the relay
  keeps its stored instruction through a disconnect and its timer. After a reconnect,
  \<^verbatim>\<open>goToStep\<close> at the kept cursor hands the current step to the send routine again,
  which puts it on the link at once when it carries no media.
\<close>

theorem transport_close_keeps_session:
  "activeScenarioId (conn_on_close st) = activeScenarioId st \<and>
   currentStepIndex (conn_on_close st) = currentStepIndex st \<and>
   instructionsByScenario (conn_on_close st) = instructionsByScenario st \<and>
   viewMode (conn_on_close st) = viewMode st \<and>
   patientConnected (conn_on_close st) = False \<and>
   activeScenarioId (on_patient_status False su) = activeScenarioId su \<and>
   currentStepIndex (on_patient_status False su) = currentStepIndex su \<and>
   instructionsByScenario (on_patient_status False su) = instructionsByScenario su \<and>
   patientConnected (on_patient_status False su) = False \<and>
   currentInstruction (fst (on_disconnect socket sv)) = currentInstruction sv \<and>
   currentInstruction (fst (disconnect_timer sv)) = currentInstruction sv \<and>
   (is_active st \<and> cursor_in_bounds st \<longrightarrow>
      goToStep (conn_on_open conn (conn_on_close st)) (currentStepIndex st)
        = sendInstruction (conn_on_open conn (conn_on_close st))
            (active_steps st ! nat (currentStepIndex st))) \<and>
   (is_active st \<and> cursor_in_bounds st \<and>
    media (active_steps st ! nat (currentStepIndex st)) = None \<longrightarrow>
      goToStep (conn_on_open conn (conn_on_close st)) (currentStepIndex st)
        = (conn_on_open conn (conn_on_close st),
           [MsgInstruction (to_payload (active_steps st ! nat (currentStepIndex st)))]))"
proof -
  let ?st' = "conn_on_open conn (conn_on_close st)"
  let ?step = "active_steps st ! nat (currentStepIndex st)"
  have resend: "goToStep ?st' (currentStepIndex st) = sendInstruction ?st' ?step"
    if live: "is_active st \<and> cursor_in_bounds st"
  proof -
    obtain sid where sid: "activeScenarioId st = Some sid" "sid \<noteq> []"
      using live by (auto simp: is_active_def truthy_str_def split: option.splits)
    have b: "0 \<le> currentStepIndex st" "currentStepIndex st < int (length (steps_of st sid))"
      using live sid by (simp_all add: cursor_in_bounds_def active_steps_def)
    have e: "?st'\<lparr>currentStepIndex := currentStepIndex st\<rparr> = ?st'"
      by (simp add: conn_on_open_def conn_on_close_def)
    have s: "steps_of ?st' sid = steps_of st sid" "activeScenarioId ?st' = Some sid"
      using sid by (simp_all add: conn_on_open_def conn_on_close_def steps_of_def)
    show ?thesis
      using sid b s
      by (simp add: goToStep_def truthy_str_def Let_def e active_steps_def)
  qed
  have up: "link_up ?st'"
    by (simp add: link_up_def conn_on_open_def conn_on_close_def)
  have now: "goToStep ?st' (currentStepIndex st) = (?st', [MsgInstruction (to_payload ?step)])"
    if live: "is_active st \<and> cursor_in_bounds st \<and> media ?step = None"
    using live resend up by (simp add: sendInstruction_def)
  show ?thesis
    using resend now
    by (simp add: conn_on_close_def on_patient_status_def on_disconnect_def
        disconnect_timer_def Let_def)
qed

text \<open>
  The paired console is on step 2 of 3 when the connection closes: the cursor stays at
  index 1, and after reconnecting step 2 is sent again.
\<close>

theorem transport_close_keeps_session_witness:
  "is_active (run paired [Start ''s1'', Next]) \<and>
   cursor_in_bounds (run paired [Start ''s1'', Next]) \<and>
   media (active_steps (run paired [Start ''s1'', Next])
            ! nat (currentStepIndex (run paired [Start ''s1'', Next]))) = None \<and>
   currentStepIndex (conn_on_close (run paired [Start ''s1'', Next])) = 1 \<and>
   patientConnected (conn_on_close (run paired [Start ''s1'', Next])) = False \<and>
   snd (goToStep (conn_on_open ''radio-patient-1234''
                    (conn_on_close (run paired [Start ''s1'', Next]))) 1)
     = [MsgInstruction (to_payload (step_n ''2''))]"
proof -
  let ?st = "run paired [Start ''s1'', Next]"
  have h1: "is_active ?st" and h2: "cursor_in_bounds ?st"
    and h3: "currentStepIndex ?st = 1"
    and h4: "active_steps ?st ! nat 1 = step_n ''2''"
    by (simp_all add: console_defs example_defs bounds_defs)
  have h5: "media (active_steps ?st ! nat (currentStepIndex ?st)) = None"
    unfolding h3 h4 by (simp add: step_n_def)
  note close =
    transport_close_keeps_session
      [of ?st "mounted_io thorax" 1 server_start "''radio-patient-1234''"]
  have c: "currentStepIndex (conn_on_close ?st) = 1"
    "patientConnected (conn_on_close ?st) = False"
    using close h3 by simp_all
  have "goToStep (conn_on_open ''radio-patient-1234'' (conn_on_close ?st)) (currentStepIndex ?st)
          = (conn_on_open ''radio-patient-1234'' (conn_on_close ?st),
             [MsgInstruction (to_payload (active_steps ?st ! nat (currentStepIndex ?st)))])"
    using close h1 h2 h5 by blast
  then have g: "snd (goToStep (conn_on_open ''radio-patient-1234'' (conn_on_close ?st)) 1)
                  = [MsgInstruction (to_payload (step_n ''2''))]"
    unfolding h3 h4 by simp
  show ?thesis
    by (intro conjI) (rule h1 h2 h5 c g)+
qed

section \<open>Media through a show\<close>

lemma deliver_via_show:
  "deliver_via wire [MsgInstruction p] d = media_effect (d\<lparr>d_instruction := Some (wire p)\<rparr>)"
  by (simp add: deliver_via_def d_on_data_def)

text \<open>A suspended send stays where it is, whatever the operator does meanwhile.\<close>

lemma sendInstruction_awaiting:
  "k < length (awaiting st) \<Longrightarrow>
   k < length (awaiting (fst (sendInstruction st inst))) \<and>
   awaiting (fst (sendInstruction st inst)) ! k = awaiting st ! k"
  by (simp add: sendInstruction_def nth_append split: option.splits)

lemma act_awaiting:
  "k < length (awaiting st) \<Longrightarrow>
   k < length (awaiting (fst (act st a))) \<and> awaiting (fst (act st a)) ! k = awaiting st ! k"
proof (cases a)
  case (Start sid)
  assume k: "k < length (awaiting st)"
  let ?st' = "st\<lparr>activeScenarioId := Some sid, currentStepIndex := 0, viewMode := ViewSession\<rparr>"
  have "k < length (awaiting ?st')" using k by simp
  from sendInstruction_awaiting [OF this] k show ?thesis
    by (simp add: Start startSession_def Let_def)
next
  case (GoTo i)
  assume k: "k < length (awaiting st)"
  have "k < length (awaiting (st\<lparr>currentStepIndex := i\<rparr>))" using k by simp
  from sendInstruction_awaiting [OF this] k show ?thesis
    by (simp add: GoTo goToStep_def Let_def)
next
  case Next
  assume k: "k < length (awaiting st)"
  have "k < length (awaiting (st\<lparr>currentStepIndex := currentStepIndex st + 1\<rparr>))"
    using k by simp
  from sendInstruction_awaiting [OF this] k show ?thesis
    by (simp add: Next next_step_def goToStep_def Let_def)
next
  case Previous
  assume k: "k < length (awaiting st)"
  have "k < length (awaiting (st\<lparr>currentStepIndex := currentStepIndex st - 1\<rparr>))"
    using k by simp
  from sendInstruction_awaiting [OF this] k show ?thesis
    by (simp add: Previous previous_step_def goToStep_def Let_def)
next
  case End
  assume "k < length (awaiting st)"
  then show ?thesis by (simp add: End endSession_def)
next
  case (Refresh m)
  assume "k < length (awaiting st)"
  then show ?thesis by (simp add: Refresh setInstructionsByScenario_def)
qed

lemma run_awaiting:
  "k < length (awaiting st) \<Longrightarrow>
   k < length (awaiting (run st as)) \<and> awaiting (run st as) ! k = awaiting st ! k"
proof (induction as arbitrary: st)
  case Nil
  then show ?case by simp
next
  case (Cons a as)
  from act_awaiting [OF Cons.prems, of a] Cons.IH [of "fst (act st a)"]
  show ?case by simp
qed

text \<open>
  Claim C6. A step whose media is a blob of bytes \<open>B\<close>, sent over an open link, is first
  suspended until its buffer is there, and stays suspended through whatever the operator
  does and through a close of the connection. When the send resumes and a connection is
  set, it puts one show on the link, built from the step as it was given: for every
  transport that hands over the media bytes and the media type of that show unchanged,
  the display's media URL then designates a blob of exactly the bytes \<open>B\<close>, the media
  type arrives unchanged, a step of kind image is shown as an image, and the rebuilt blob
  carries the step's media type whenever that type is a non-empty MIME type in normal
  form (printable ASCII, lower case), as the types of uploaded files are. When the send
  resumes and no connection is set, nothing is sent: the call ends in a \<^verbatim>\<open>TypeError\<close>.
\<close>

theorem show_media_round_trip:
  "(link_up st \<and> media inst = Some b \<longrightarrow>
      sendInstruction st inst = (st\<lparr>awaiting := awaiting st @ [inst]\<rparr>, [])) \<and>
   (k < length (awaiting st) \<longrightarrow>
      k < length (awaiting (run st as)) \<and> awaiting (run st as) ! k = awaiting st ! k \<and>
      k < length (awaiting (conn_on_close st)) \<and>
      awaiting (conn_on_close st) ! k = awaiting st ! k) \<and>
   (k < length (awaiting st) \<and> awaiting st ! k = inst \<and> connRef st \<noteq> None \<and>
    media inst = Some b \<and>
    p_media (wire (to_payload inst)) = p_media (to_payload inst) \<and>
    p_media_type (wire (to_payload inst)) = p_media_type (to_payload inst) \<longrightarrow>
      snd (sendInstruction_resume k st) = Inr [MsgInstruction (to_payload inst)] \<and>
      p_media (to_payload inst) = Some (blob_bytes b) \<and>
      p_media_type (to_payload inst) = media_type inst \<and>
      map_option blob_bytes
        (mediaUrl (deliver_via wire [MsgInstruction (to_payload inst)] d))
        = Some (blob_bytes b) \<and>
      map_option p_media_type
        (d_instruction (deliver_via wire [MsgInstruction (to_payload inst)] d))
        = Some (media_type inst) \<and>
      (kind_of (media_type inst) = Image \<longrightarrow>
         kind_of (p_media_type
           (the (d_instruction (deliver_via wire [MsgInstruction (to_payload inst)] d))))
           = Image) \<and>
      (truthy_str (media_type inst) \<and>
       normalise_type (the (media_type inst)) = the (media_type inst) \<longrightarrow>
         map_option blob_type
           (mediaUrl (deliver_via wire [MsgInstruction (to_payload inst)] d))
           = media_type inst)) \<and>
   (k < length (awaiting st) \<and> connRef st = None \<longrightarrow>
      snd (sendInstruction_resume k st) = Inl TypeError)"
proof (intro conjI impI)
  show "sendInstruction st inst = (st\<lparr>awaiting := awaiting st @ [inst]\<rparr>, [])"
    if "link_up st \<and> media inst = Some b"
    using that by (simp add: sendInstruction_def)
  show "snd (sendInstruction_resume k st) = Inl TypeError"
    if "k < length (awaiting st) \<and> connRef st = None"
    using that by (simp add: sendInstruction_resume_def Let_def)
next
  assume k: "k < length (awaiting st)"
  show "k < length (awaiting (run st as))" and "awaiting (run st as) ! k = awaiting st ! k"
    using run_awaiting [OF k, of as] by simp_all
  show "k < length (awaiting (conn_on_close st))"
    and "awaiting (conn_on_close st) ! k = awaiting st ! k"
    using k by (simp_all add: conn_on_close_def)
next
  assume a: "k < length (awaiting st) \<and> awaiting st ! k = inst \<and> connRef st \<noteq> None \<and>
    media inst = Some b \<and>
    p_media (wire (to_payload inst)) = p_media (to_payload inst) \<and>
    p_media_type (wire (to_payload inst)) = p_media_type (to_payload inst)"
  let ?d = "deliver_via wire [MsgInstruction (to_payload inst)] d"
  show "snd (sendInstruction_resume k st) = Inr [MsgInstruction (to_payload inst)]"
    using a by (auto simp: sendInstruction_resume_def Let_def split: option.splits)
  show pm: "p_media (to_payload inst) = Some (blob_bytes b)"
    and pt: "p_media_type (to_payload inst) = media_type inst"
    using a by (simp_all add: to_payload_def arrayBuffer_def)
  have wm: "p_media (wire (to_payload inst)) = Some (blob_bytes b)"
    and wt: "p_media_type (wire (to_payload inst)) = media_type inst"
    using a pm pt by simp_all
  have di: "d_instruction ?d = Some (wire (to_payload inst))"
    by (simp add: deliver_via_show media_effect_def wm)
  have mu: "mediaUrl ?d
      = Some (Blob_new [blob_bytes b]
          (if truthy_str (media_type inst) then the (media_type inst)
           else ''application/octet-stream''))"
    by (simp add: deliver_via_show media_effect_def wm wt)
  show "map_option blob_bytes (mediaUrl ?d) = Some (blob_bytes b)"
    by (simp add: mu Blob_new_def)
  show "map_option p_media_type (d_instruction ?d) = Some (media_type inst)"
    by (simp add: di wt)
  show "kind_of (p_media_type (the (d_instruction ?d))) = Image"
    if "kind_of (media_type inst) = Image"
    using that by (simp add: di wt)
  show "map_option blob_type (mediaUrl ?d) = media_type inst"
    if "truthy_str (media_type inst) \<and>
        normalise_type (the (media_type inst)) = the (media_type inst)"
    using that by (auto simp: mu Blob_new_def truthy_str_def split: option.splits)
qed

text \<open>
  A PNG step sent by the paired console: the send is suspended, and when it resumes the
  display holds the same four bytes as an image. If the connection closes before the
  buffer is there, the send ends in an error and nothing reaches the display.
\<close>

theorem show_media_round_trip_witness:
  "link_up paired \<and>
   media png_step = Some \<lparr>blob_bytes = [0x89, 0x50, 0x4E, 0x47], blob_type = ''image/png''\<rparr> \<and>
   sendInstruction paired png_step = (paired\<lparr>awaiting := [png_step]\<rparr>, []) \<and>
   awaiting (run (paired\<lparr>awaiting := [png_step]\<rparr>) [Start ''s1'', Next]) ! 0 = png_step \<and>
   connRef (paired\<lparr>awaiting := [png_step]\<rparr>) \<noteq> None \<and>
   snd (sendInstruction_resume 0 (paired\<lparr>awaiting := [png_step]\<rparr>))
     = Inr [MsgInstruction (to_payload png_step)] \<and>
   kind_of (media_type png_step) = Image \<and>
   truthy_str (media_type png_step) \<and>
   normalise_type (the (media_type png_step)) = the (media_type png_step) \<and>
   mediaUrl (deliver_via (\<lambda>p. p) [MsgInstruction (to_payload png_step)] (display_mount (1/2)))
     = Some \<lparr>blob_bytes = [0x89, 0x50, 0x4E, 0x47], blob_type = ''image/png''\<rparr> \<and>
   kind_of (p_media_type (the (d_instruction
       (deliver_via (\<lambda>p. p) [MsgInstruction (to_payload png_step)] (display_mount (1/2))))))
     = Image \<and>
   connRef (conn_on_close (paired\<lparr>awaiting := [png_step]\<rparr>)) = None \<and>
   snd (sendInstruction_resume 0 (conn_on_close (paired\<lparr>awaiting := [png_step]\<rparr>)))
     = Inl TypeError"
proof -
  let ?b = "\<lparr>blob_bytes = [0x89, 0x50, 0x4E, 0x47], blob_type = ''image/png''\<rparr>"
  let ?s = "paired\<lparr>awaiting := [png_step]\<rparr>"
  let ?d = "deliver_via (\<lambda>p. p) [MsgInstruction (to_payload png_step)] (display_mount (1/2))"
  have h1: "link_up paired" by (simp add: link_up_def paired_def conn_on_open_def mounted_def)
  have h2: "media png_step = Some ?b" by (simp add: png_step_def)
  have h3: "kind_of (media_type png_step) = Image" by (simp add: png_step_def kind_of_def)
  have h4: "truthy_str (media_type png_step)" by (simp add: png_step_def truthy_str_def)
  have h5: "normalise_type (the (media_type png_step)) = the (media_type png_step)"
    by (simp add: png_step_def normalise_type_def ascii_lower_def)
  have h6: "media_type png_step = Some ''image/png''" by (simp add: png_step_def)
  have h7: "awaiting paired = []" by (simp add: paired_def conn_on_open_def mounted_def)
  have h8: "0 < length (awaiting ?s)" "awaiting ?s ! 0 = png_step" by simp_all
  have h9: "connRef ?s \<noteq> None" by (simp add: paired_def conn_on_open_def)
  have h10: "connRef (conn_on_close ?s) = None" "0 < length (awaiting (conn_on_close ?s))"
    by (simp_all add: conn_on_close_def)
  have w: "p_media ((\<lambda>p. p) (to_payload png_step)) = p_media (to_payload png_step)"
    "p_media_type ((\<lambda>p. p) (to_payload png_step)) = p_media_type (to_payload png_step)"
    by simp_all
  note sent = show_media_round_trip [of paired png_step ?b]
  note later =
    show_media_round_trip
      [of ?s png_step ?b 0 "[Start ''s1'', Next]" "\<lambda>p. p" "display_mount (1/2)"]
  note closed = show_media_round_trip [of "conn_on_close ?s" png_step ?b 0]
  have s: "sendInstruction paired png_step = (?s, [])"
    using sent h1 h2 h7 by simp
  have k: "awaiting (run ?s [Start ''s1'', Next]) ! 0 = png_step"
    using later h8 by simp
  have c: "snd (sendInstruction_resume 0 ?s) = Inr [MsgInstruction (to_payload png_step)]"
    "map_option blob_bytes (mediaUrl ?d) = Some (blob_bytes ?b)"
    "map_option blob_type (mediaUrl ?d) = media_type png_step"
    "kind_of (p_media_type (the (d_instruction ?d))) = Image"
    using later h2 h3 h4 h5 h8 h9 w by blast+
  then obtain u where u: "mediaUrl ?d = Some u" by auto
  with c h6 have "u = ?b" by simp
  with u have m: "mediaUrl ?d = Some ?b" by simp
  have e: "snd (sendInstruction_resume 0 (conn_on_close ?s)) = Inl TypeError"
    using closed h10 by blast
  show ?thesis
    by (intro conjI) (rule h1 h2 s k h9 c h3 h4 h5 m h10 e)+
qed

section \<open>Pairing by code\<close>

lemma digit_char_is_digit: "d < 10 \<Longrightarrow> is_digit (digit_char d)"
proof -
  assume "d < 10"
  then have "d \<in> {0, 1, 2, 3, 4, 5, 6, 7, 8, 9}" by auto
  then show ?thesis
    by (auto simp: digit_char_def is_digit_def)
qed

lemma digits_of_all_digits: "list_all is_digit (digits_of n)"
proof (induction n rule: digits_of.induct)
  case (1 n)
  show ?case
  proof (cases "n < 10")
    case True
    then show ?thesis by (subst digits_of.simps) (simp add: digit_char_is_digit)
  next
    case False
    then have "list_all is_digit (digits_of (n div 10))" using 1 by simp
    moreover have "is_digit (digit_char (n mod 10))" by (simp add: digit_char_is_digit)
    ultimately show ?thesis using False by (subst digits_of.simps) simp
  qed
qed

lemma digits_of_length4:
  assumes "1000 \<le> n" and "n \<le> 9999"
  shows "length (digits_of n) = 4"
proof -
  have a: "\<not> n < 10" "\<not> n div 10 < 10" "\<not> n div 10 div 10 < 10" "n div 10 div 10 div 10 < 10"
    using assms by simp_all
  have "digits_of n = digits_of (n div 10) @ [digit_char (n mod 10)]"
    using a(1) by (subst digits_of.simps) simp
  moreover have "digits_of (n div 10)
      = digits_of (n div 10 div 10) @ [digit_char (n div 10 mod 10)]"
    using a(2) by (subst digits_of.simps) simp
  moreover have "digits_of (n div 10 div 10)
      = digits_of (n div 10 div 10 div 10) @ [digit_char (n div 10 div 10 mod 10)]"
    using a(3) by (subst digits_of.simps) simp
  moreover have "digits_of (n div 10 div 10 div 10) = [digit_char (n div 10 div 10 div 10)]"
    using a(4) by (subst digits_of.simps) simp
  ultimately show ?thesis by simp
qed

subsection \<open>Rounding to double\<close>

lemma powers_of_two:
  "(2::real) powr 13 = 8192" "(2::real) powr 14 = 16384" "(2::real) powr 12 = 4096"
  "(2::real) powr 9 = 512" "(2::real) powr (- 1) = 1/2"
  "(2::real) powr (- 39) = 1 / 2 ^ 39" "(2::real) powr (- 40) = 1 / 2 ^ 40"
  "(2::real) powr (- 53) = 1 / 2 ^ 53"
  by (simp_all add: powr_minus divide_simps)

lemma round_half_even_le: "q \<le> of_int M \<Longrightarrow> round_half_even q \<le> M"
  unfolding round_half_even_def Let_def by (auto; linarith)

lemma round_half_even_ge: "of_int M \<le> q \<Longrightarrow> M \<le> round_half_even q"
  unfolding round_half_even_def Let_def by (auto simp: le_floor_iff; linarith)

lemma round_half_even_below_half: "q < of_int N - 1/2 \<Longrightarrow> round_half_even q \<le> N - 1"
  unfolding round_half_even_def Let_def by (auto; linarith)

lemma round_half_even_of_int: "round_half_even (of_int k) = k"
  by (simp add: round_half_even_def)

lemma to_double_nonneg_arg: "0 \<le> x \<Longrightarrow> to_double x = round_magnitude x"
  by (simp add: to_double_def)

lemma pow2_powr: "pow2 e = 2 powr of_int e"
proof (cases "0 \<le> e")
  case True
  then show ?thesis by (simp add: pow2_def powr_realpow [symmetric])
next
  case False
  then have "(2::real) powr of_int e = 1 / 2 powr of_int (- e)"
    by (simp add: powr_minus divide_simps)
  also have "\<dots> = 1 / 2 ^ nat (- e)"
    using False by (simp add: powr_realpow [symmetric])
  finally show ?thesis using False by (simp add: pow2_def)
qed

lemma floor_log2_eq:
  assumes "2 powr of_int k \<le> x" and "x < 2 powr (of_int k + 1)"
  shows "\<lfloor>log 2 x\<rfloor> = k"
proof -
  have "0 < (2::real) powr of_int k" by simp
  then have pos: "0 < x" using assms(1) by linarith
  have "of_int k \<le> log 2 x" using assms(1) pos by (simp add: le_log_iff)
  moreover have "log 2 x < of_int k + 1" using assms(2) pos by (simp add: log_less_iff)
  ultimately show ?thesis by linarith
qed

lemma floor_log2_log:
  assumes "0 < x"
  shows "floor_log2 x = \<lfloor>log 2 x\<rfloor>"
proof (cases "1 \<le> x")
  case True
  let ?n = "\<lfloor>x\<rfloor>"
  let ?b = "bitlen ?n"
  have n: "0 < ?n" using True by simp
  have b1: "1 \<le> ?b" using n by (auto simp: bitlen_alt_def)
  have bounds: "2 ^ nat (?b - 1) \<le> ?n" "?n < 2 ^ nat ?b"
    using bitlen_bounds [OF n] by simp_all
  have "(2::real) powr of_int (?b - 1) = of_int (2 ^ nat (?b - 1))"
    using b1 by (simp add: powr_realpow [symmetric])
  also have "\<dots> \<le> of_int ?n" using bounds(1) by (simp only: of_int_le_iff)
  also have "\<dots> \<le> x" by simp
  finally have lo: "2 powr of_int (?b - 1) \<le> x" .
  have "?n + 1 \<le> 2 ^ nat ?b" using bounds(2) by simp
  then have "(of_int (?n + 1) :: real) \<le> of_int (2 ^ nat ?b)" by (simp only: of_int_le_iff)
  moreover have "x < of_int (?n + 1)" by simp
  moreover have "(of_int (2 ^ nat ?b) :: real) = 2 powr (of_int (?b - 1) + 1)"
    using b1 by (simp add: powr_realpow [symmetric])
  ultimately have hi: "x < 2 powr (of_int (?b - 1) + 1)" by linarith
  show ?thesis using floor_log2_eq [OF lo hi] True by (simp add: floor_log2_def)
next
  case False
  let ?c = "\<lceil>1 / x\<rceil>"
  let ?b = "bitlen (?c - 1)"
  have y: "1 < 1 / x" using False assms by simp
  then have c: "0 < ?c - 1" by (simp add: less_ceiling_iff)
  have b1: "1 \<le> ?b" using c by (auto simp: bitlen_alt_def)
  have bounds: "2 ^ nat (?b - 1) \<le> ?c - 1" "?c - 1 < 2 ^ nat ?b"
    using bitlen_bounds [OF c] by simp_all
  have "?c \<le> 2 ^ nat ?b" using bounds(2) by simp
  then have "(of_int ?c :: real) \<le> of_int (2 ^ nat ?b)" by (simp only: of_int_le_iff)
  moreover have "1 / x \<le> of_int ?c" by simp
  ultimately have "1 / x \<le> of_int (2 ^ nat ?b)" by linarith
  moreover have "(of_int (2 ^ nat ?b) :: real) = 2 powr of_int ?b"
    using b1 by (simp add: powr_realpow [symmetric])
  ultimately have "1 / x \<le> 2 powr of_int ?b" by simp
  then have "1 / 2 powr of_int ?b \<le> x"
    using assms by (simp add: field_simps)
  moreover have "(2::real) powr of_int (- ?b) = 1 / 2 powr of_int ?b"
    using powr_minus_divide [of 2 "of_int ?b"] by simp
  ultimately have lo: "2 powr of_int (- ?b) \<le> x" by linarith
  have "(of_int (2 ^ nat (?b - 1)) :: real) \<le> of_int (?c - 1)"
    using bounds(1) by (simp only: of_int_le_iff)
  moreover have "of_int (?c - 1) < 1 / x" using ceiling_correct [of "1 / x"] by simp
  ultimately have "of_int (2 ^ nat (?b - 1)) < 1 / x" by linarith
  moreover have "(of_int (2 ^ nat (?b - 1)) :: real) = 2 powr of_int (?b - 1)"
    using b1 by (simp add: powr_realpow [symmetric])
  ultimately have "2 powr of_int (?b - 1) < 1 / x" by simp
  then have "x < 1 / 2 powr of_int (?b - 1)"
    using assms by (simp add: field_simps)
  moreover have "(2::real) powr (of_int (- ?b) + 1) = 2 powr (- of_int (?b - 1))"
    by simp
  moreover have "(2::real) powr (- of_int (?b - 1)) = 1 / 2 powr of_int (?b - 1)"
    by (rule powr_minus_divide)
  ultimately have hi: "x < 2 powr (of_int (- ?b) + 1)" by linarith
  show ?thesis using floor_log2_eq [OF lo hi] False by (simp add: floor_log2_def)
qed

lemma ulp_exponent_log: "0 < x \<Longrightarrow> ulp_exponent x = max \<lfloor>log 2 x\<rfloor> (- 1022) - 52"
  by (simp add: ulp_exponent_def floor_log2_log)

lemma round_magnitude_powr:
  "round_magnitude x =
     (if x \<le> 0 then 0
      else of_int (round_half_even (x / 2 powr of_int (ulp_exponent x)))
             * 2 powr of_int (ulp_exponent x))"
  by (simp add: round_magnitude_def pow2_powr)

lemma ulp_exponent_binade:
  assumes "2 powr of_int k \<le> x" and "x < 2 powr (of_int k + 1)" and "- 1022 \<le> k"
  shows "ulp_exponent x = k - 52"
proof -
  have "0 < (2::real) powr of_int k" by simp
  then have "0 < x" using assms(1) by linarith
  then show ?thesis
    using floor_log2_eq [OF assms(1,2)] assms(3) by (simp add: ulp_exponent_log)
qed

lemma round_magnitude_nonneg: "0 \<le> round_magnitude x"
proof (cases "x \<le> 0")
  case True
  then show ?thesis by (simp add: round_magnitude_powr)
next
  case False
  then have "of_int 0 \<le> x / 2 powr of_int (ulp_exponent x)" by simp
  then have "0 \<le> round_half_even (x / 2 powr of_int (ulp_exponent x))"
    by (rule round_half_even_ge)
  then show ?thesis using False by (simp add: round_magnitude_powr)
qed

lemma round_magnitude_le_grid:
  assumes "0 < x" and "x \<le> of_int M * 2 powr of_int (ulp_exponent x)"
  shows "round_magnitude x \<le> of_int M * 2 powr of_int (ulp_exponent x)"
proof -
  have "x / 2 powr of_int (ulp_exponent x) \<le> of_int M"
    using assms(2) by (simp add: divide_le_eq)
  then have "round_half_even (x / 2 powr of_int (ulp_exponent x)) \<le> M"
    by (rule round_half_even_le)
  then have "of_int (round_half_even (x / 2 powr of_int (ulp_exponent x)))
               * (2::real) powr of_int (ulp_exponent x)
             \<le> of_int M * 2 powr of_int (ulp_exponent x)"
    by (simp add: mult_right_mono)
  then show ?thesis using assms(1) by (simp add: round_magnitude_powr)
qed

lemma round_magnitude_ge_grid:
  assumes "0 < x" and "of_int M * 2 powr of_int (ulp_exponent x) \<le> x"
  shows "of_int M * 2 powr of_int (ulp_exponent x) \<le> round_magnitude x"
proof -
  have "of_int M \<le> x / 2 powr of_int (ulp_exponent x)"
    using assms(2) by (simp add: le_divide_eq)
  then have "M \<le> round_half_even (x / 2 powr of_int (ulp_exponent x))"
    by (rule round_half_even_ge)
  then have "of_int M * (2::real) powr of_int (ulp_exponent x)
             \<le> of_int (round_half_even (x / 2 powr of_int (ulp_exponent x)))
                 * 2 powr of_int (ulp_exponent x)"
    by (simp add: mult_right_mono)
  then show ?thesis using assms(1) by (simp add: round_magnitude_powr)
qed

lemma round_magnitude_le_below_half:
  assumes "0 < x" and "x < (of_int N - 1/2) * 2 powr of_int (ulp_exponent x)"
  shows "round_magnitude x \<le> (of_int N - 1) * 2 powr of_int (ulp_exponent x)"
proof -
  have "x / 2 powr of_int (ulp_exponent x) < of_int N - 1/2"
    using assms(2) by (simp add: divide_less_eq)
  then have "round_half_even (x / 2 powr of_int (ulp_exponent x)) \<le> N - 1"
    by (rule round_half_even_below_half)
  then have "of_int (round_half_even (x / 2 powr of_int (ulp_exponent x)))
               * (2::real) powr of_int (ulp_exponent x)
             \<le> of_int (N - 1) * 2 powr of_int (ulp_exponent x)"
    by (intro mult_right_mono) simp_all
  then show ?thesis using assms(1) by (simp add: round_magnitude_powr)
qed

lemma round_magnitude_le_power:
  assumes "0 < x" and "x \<le> 2 powr of_int m" and "- 1022 \<le> m"
  shows "round_magnitude x \<le> 2 powr of_int m"
proof -
  have "log 2 x \<le> of_int m" using assms(1,2) by (simp add: log_le_iff)
  then have "\<lfloor>log 2 x\<rfloor> \<le> m" by linarith
  then have g: "0 \<le> m - ulp_exponent x"
    using assms(1,3) by (simp add: ulp_exponent_log)
  have "(2::real) ^ nat (m - ulp_exponent x) = 2 powr of_int (m - ulp_exponent x)"
    using g by (simp add: powr_realpow [symmetric])
  then have "(2::real) ^ nat (m - ulp_exponent x) * 2 powr of_int (ulp_exponent x)
               = 2 powr (of_int (m - ulp_exponent x) + of_int (ulp_exponent x))"
    by (simp only: powr_add)
  then have "of_int (2 ^ nat (m - ulp_exponent x)) * 2 powr of_int (ulp_exponent x)
               = (2::real) powr of_int m"
    by simp
  then show ?thesis
    using round_magnitude_le_grid [OF assms(1), of "2 ^ nat (m - ulp_exponent x)"] assms(2)
    by simp
qed

text \<open>A number on the grid of its binade is a double.\<close>

lemma round_magnitude_exact:
  assumes "2 powr of_int k \<le> x" and "x < 2 powr (of_int k + 1)" and "- 1022 \<le> k"
    and "x = of_int M * 2 powr of_int (k - 52)"
  shows "round_magnitude x = x"
proof -
  have "0 < (2::real) powr of_int k" by simp
  then have pos: "0 < x" using assms(1) by linarith
  have u: "ulp_exponent x = k - 52" using assms(1-3) by (rule ulp_exponent_binade)
  have "x / 2 powr of_int (k - 52) = of_int M" using assms(4) by simp
  then have "round_half_even (x / 2 powr of_int (k - 52)) = M"
    by (simp only: round_half_even_of_int)
  then show ?thesis using pos assms(4) unfolding round_magnitude_powr u by simp
qed

subsection \<open>The three floating-point steps of the code\<close>

text \<open>A double below 1 is at most \<open>1 - 2 powr (- 53)\<close>.\<close>

lemma double_below_one:
  assumes "to_double r = r" and "0 \<le> r" and "r < 1"
  shows "r \<le> 1 - 1 / 2 ^ 53"
proof (cases "r < 1/2")
  case True
  then show ?thesis by simp
next
  case False
  then have pos: "0 < r" by simp
  have u: "ulp_exponent r = - 53"
    using ulp_exponent_binade [of "- 1" r] False assms(3) by (simp add: powers_of_two)
  define k where "k = round_half_even (r / 2 powr of_int (- 53))"
  have "round_magnitude r = r" using assms(1,2) by (simp add: to_double_nonneg_arg)
  then have rk: "r = of_int k * (1 / 2 ^ 53)"
    using pos unfolding round_magnitude_powr u k_def by (simp add: powers_of_two)
  have "of_int k * (1 / 2 ^ 53) < (1::real)" using assms(3) rk by simp
  then have "of_int k < (2::real) ^ 53" by (simp add: divide_simps)
  then have "of_int k < (of_int (2 ^ 53) :: real)" by simp
  then have "k < 2 ^ 53" by (simp only: of_int_less_iff)
  then have "k \<le> 2 ^ 53 - 1" by simp
  then have "(of_int k :: real) \<le> of_int (2 ^ 53 - 1)" by (simp only: of_int_le_iff)
  then have "of_int k * (1 / 2 ^ 53) \<le> (of_int (2 ^ 53 - 1) :: real) * (1 / 2 ^ 53)"
    by (intro mult_right_mono) simp_all
  also have "\<dots> = 1 - 1 / 2 ^ 53" by simp
  finally show ?thesis using rk by simp
qed

lemma product_below_9000:
  assumes "0 \<le> r" and "r \<le> 1 - 1 / 2 ^ 53"
  shows "round_magnitude (r * 9000) \<le> 9000 - 1 / 2 ^ 39"
proof (cases "r * 9000 < 8192")
  case True
  show ?thesis
  proof (cases "r * 9000 \<le> 0")
    case True
    then show ?thesis by (simp add: round_magnitude_powr)
  next
    case False
    then have "round_magnitude (r * 9000) \<le> 2 powr of_int 13"
      using True by (intro round_magnitude_le_power) (simp_all add: powers_of_two)
    then show ?thesis by (simp add: powers_of_two)
  qed
next
  case False
  have hi: "r * 9000 < 16384" using assms(2) by simp
  have u: "ulp_exponent (r * 9000) = - 39"
    using ulp_exponent_binade [of 13 "r * 9000"] False hi by (simp add: powers_of_two)
  have "r * 9000 \<le> 9000 - 9000 / 2 ^ 53" using assms(2) by simp
  also have "\<dots> < (of_int (9000 * 2 ^ 39) - 1/2) * 2 powr of_int (- 39)"
    by (simp add: powers_of_two)
  finally have "round_magnitude (r * 9000)
                  \<le> (of_int (9000 * 2 ^ 39) - 1) * 2 powr of_int (- 39)"
    using round_magnitude_le_below_half [of "r * 9000" "9000 * 2 ^ 39"] False
    unfolding u by simp
  then show ?thesis by (simp add: powers_of_two)
qed

lemma sum_below_10000:
  assumes "0 \<le> y" and "y \<le> 9000 - 1 / 2 ^ 39"
  shows "round_magnitude (1000 + y) < 10000"
proof (cases "1000 + y < 8192")
  case True
  then have "round_magnitude (1000 + y) \<le> 2 powr of_int 13"
    using assms(1) by (intro round_magnitude_le_power) (simp_all add: powers_of_two)
  then show ?thesis by (simp add: powers_of_two)
next
  case False
  have hi: "1000 + y < 16384" using assms(2) by simp
  have u: "ulp_exponent (1000 + y) = - 39"
    using ulp_exponent_binade [of 13 "1000 + y"] False hi by (simp add: powers_of_two)
  have "1000 + y \<le> of_int (10000 * 2 ^ 39 - 1) * 2 powr of_int (- 39)"
    using assms(2) by (simp add: powers_of_two)
  then have "round_magnitude (1000 + y) \<le> of_int (10000 * 2 ^ 39 - 1) * 2 powr of_int (- 39)"
    using round_magnitude_le_grid [of "1000 + y" "10000 * 2 ^ 39 - 1"] assms(1)
    unfolding u by simp
  then show ?thesis by (simp add: powers_of_two)
qed

lemma sum_above_1000:
  assumes "0 \<le> y" and "y \<le> 9000"
  shows "1000 \<le> round_magnitude (1000 + y)"
proof -
  let ?x = "1000 + y"
  let ?k = "\<lfloor>log 2 ?x\<rfloor>"
  have pos: "0 < ?x" using assms(1) by simp
  have "2 powr of_int 9 \<le> ?x" using assms(1) by simp
  then have "of_int 9 \<le> log 2 ?x" using pos le_log_iff [of 2 ?x "of_int 9"] by simp
  then have lo: "9 \<le> ?k" by (simp add: le_floor_iff)
  have "?x < 2 powr of_int 14" using assms(2) by simp
  then have "log 2 ?x < of_int 14" using pos log_less_iff [of 2 ?x "of_int 14"] by simp
  then have hi: "?k < 14" by (simp add: floor_less_iff)
  have u: "ulp_exponent ?x = ?k - 52" using lo pos by (simp add: ulp_exponent_log)
  have "(2::real) ^ nat (52 - ?k) = 2 powr of_int (52 - ?k)"
    using hi by (simp add: powr_realpow [symmetric])
  then have "(2::real) ^ nat (52 - ?k) * 2 powr of_int (?k - 52)
               = 2 powr (of_int (52 - ?k) + of_int (?k - 52))"
    by (simp only: powr_add)
  then have g: "of_int (1000 * 2 ^ nat (52 - ?k)) * 2 powr of_int (ulp_exponent ?x)
                  = (1000::real)"
    unfolding u by simp
  then have "of_int (1000 * 2 ^ nat (52 - ?k)) * 2 powr of_int (ulp_exponent ?x) \<le> ?x"
    using assms(1) by simp
  from round_magnitude_ge_grid [OF pos this] g show ?thesis by simp
qed

lemma generate_code_range:
  assumes "to_double r = r" and "0 \<le> r" and "r < 1"
  shows "1000 \<le> generate_code r" and "generate_code r \<le> 9999"
proof -
  let ?y = "to_double (r * 9000)"
  have r: "r \<le> 1 - 1 / 2 ^ 53" using assms by (rule double_below_one)
  have y: "?y = round_magnitude (r * 9000)"
    using assms(2) by (simp add: to_double_nonneg_arg)
  have y0: "0 \<le> ?y" unfolding y by (rule round_magnitude_nonneg)
  have y1: "?y \<le> 9000 - 1 / 2 ^ 39"
    unfolding y using assms(2) r by (rule product_below_9000)
  have s: "to_double (1000 + ?y) = round_magnitude (1000 + ?y)"
    using y0 by (simp add: to_double_nonneg_arg)
  have "?y \<le> 9000" using y1 by (simp add: field_simps)
  then have "1000 \<le> round_magnitude (1000 + ?y)" using y0 by (intro sum_above_1000)
  then show "1000 \<le> generate_code r"
    unfolding generate_code_def s by (simp add: le_floor_iff)
  have "round_magnitude (1000 + ?y) < 10000" using y0 y1 by (rule sum_below_10000)
  then have "generate_code r < 10000"
    unfolding generate_code_def s by (simp add: floor_less_iff)
  then show "generate_code r \<le> 9999" by simp
qed

text \<open>The draw 0.5 is a double, and its code is 5500.\<close>

lemma to_double_half: "to_double (1/2) = 1/2"
proof -
  have "round_magnitude (1/2) = 1/2"
    by (rule round_magnitude_exact [of "- 1" _ "2 ^ 52"]) (simp_all add: powers_of_two)
  then show ?thesis by (simp add: to_double_nonneg_arg)
qed

lemma generate_code_half: "generate_code (1/2) = 5500"
proof -
  have "round_magnitude 4500 = 4500"
    by (rule round_magnitude_exact [of 12 _ "4500 * 2 ^ 40"]) (simp_all add: powers_of_two)
  moreover have "round_magnitude 5500 = 5500"
    by (rule round_magnitude_exact [of 12 _ "5500 * 2 ^ 40"]) (simp_all add: powers_of_two)
  ultimately show ?thesis by (simp add: generate_code_def to_double_nonneg_arg)
qed

text \<open>
  Claim C8. For every double \<open>0 \<le> r < 1\<close> that the random draw can return, the code of the
  display is between 1000 and 9999 and is written with four decimal digits; the display
  listens on \<^verbatim>\<open>radio-patient-\<close> followed by the code, and a console in which that code
  was typed dials exactly that identifier; whatever non-empty code is typed, the console
  dials \<^verbatim>\<open>radio-patient-\<close> followed by it.
\<close>

theorem pairing_address_agreement:
  "(to_double r = r \<and> 0 \<le> r \<and> r < 1 \<longrightarrow>
      1000 \<le> generate_code r \<and> generate_code r \<le> 9999 \<and>
      peerId (display_mount r) = toString (generate_code r) \<and>
      length (peerId (display_mount r)) = 4 \<and>
      list_all is_digit (peerId (display_mount r)) \<and>
      listening_on (display_mount r) = ''radio-patient-'' @ peerId (display_mount r) \<and>
      (peerRef st \<and> patientCode st = peerId (display_mount r) \<longrightarrow>
         snd (connectToPatient st) = Some (listening_on (display_mount r)))) \<and>
   (patientCode st \<noteq> [] \<and> peerRef st \<longrightarrow>
      snd (connectToPatient st) = Some (''radio-patient-'' @ patientCode st))"
proof (intro conjI impI)
  show "snd (connectToPatient st) = Some (''radio-patient-'' @ patientCode st)"
    if "patientCode st \<noteq> [] \<and> peerRef st"
    using that by (simp add: connectToPatient_def)
next
  assume r: "to_double r = r \<and> 0 \<le> r \<and> r < 1"
  then show lo: "1000 \<le> generate_code r" and hi: "generate_code r \<le> 9999"
    by (simp_all add: generate_code_range)
  show id: "peerId (display_mount r) = toString (generate_code r)"
    by (simp add: display_mount_def Let_def)
  have ts: "toString (generate_code r) = digits_of (nat (generate_code r))"
    using lo by (simp add: toString_def)
  have n: "1000 \<le> nat (generate_code r)" "nat (generate_code r) \<le> 9999"
    using lo hi by simp_all
  show len: "length (peerId (display_mount r)) = 4"
    using n by (simp add: id ts digits_of_length4 del: digits_of.simps)
  show "list_all is_digit (peerId (display_mount r))"
    by (simp add: id ts digits_of_all_digits del: digits_of.simps)
  show fid: "listening_on (display_mount r) = ''radio-patient-'' @ peerId (display_mount r)"
    by (simp add: display_mount_def Let_def)
  show "snd (connectToPatient st) = Some (listening_on (display_mount r))"
    if "peerRef st \<and> patientCode st = peerId (display_mount r)"
  proof -
    have "patientCode st \<noteq> []" using that len by auto
    then show ?thesis using that fid by (simp add: connectToPatient_def)
  qed
qed

text \<open>The draw 0.5 gives the code 5500 on both sides.\<close>

theorem pairing_address_agreement_witness:
  "to_double (1/2) = 1/2 \<and> (0::real) \<le> 1/2 \<and> (1/2::real) < 1 \<and>
   generate_code (1/2) = 5500 \<and>
   peerId (display_mount (1/2)) = ''5500'' \<and>
   listening_on (display_mount (1/2)) = ''radio-patient-5500'' \<and>
   peerRef (mounted thorax\<lparr>patientCode := ''5500''\<rparr>) \<and>
   snd (connectToPatient (mounted thorax\<lparr>patientCode := ''5500''\<rparr>))
     = Some (listening_on (display_mount (1/2)))"
proof -
  have h0: "to_double (1/2) = 1/2" by (rule to_double_half)
  have h1: "(0::real) \<le> 1/2" and h2: "(1/2::real) < 1" by simp_all
  have g: "generate_code (1/2) = 5500" by (rule generate_code_half)
  have p: "peerId (display_mount (1/2)) = ''5500''"
    by (simp add: display_mount_def g toString_def digit_char_def Let_def)
  have h3: "peerRef (mounted thorax\<lparr>patientCode := ''5500''\<rparr>)"
    and h4: "patientCode (mounted thorax\<lparr>patientCode := ''5500''\<rparr>) = ''5500''"
    by (simp_all add: mounted_def)
  show ?thesis
    using h0 h1 h2 h3 h4 g p
      pairing_address_agreement [of "1/2" "mounted thorax\<lparr>patientCode := ''5500''\<rparr>"]
    by simp
qed

section \<open>The label of a step with media\<close>

lemma digit_not_ws: "is_digit c \<Longrightarrow> \<not> is_ws c"
  by (auto simp: is_digit_def is_ws_def)

lemma digit_not_sign: "is_digit c \<Longrightarrow> c \<noteq> CHR ''+'' \<and> c \<noteq> CHR ''-''"
  by (auto simp: is_digit_def)

lemma trim_digits:
  assumes "list_all is_digit s"
  shows "trim s = s"
proof (cases "s = []")
  case True
  then show ?thesis by (simp add: trim_def)
next
  case False
  then have "hd s \<in> set s" and "last s \<in> set s" by simp_all
  then have "is_digit (hd s)" and "is_digit (last s)"
    using assms by (simp_all add: list_all_iff)
  then have "\<not> is_ws (hd s)" and "\<not> is_ws (hd (rev s))"
    using False by (simp_all add: hd_rev digit_not_ws)
  then have "dropWhile is_ws s = s" and "dropWhile is_ws (rev s) = rev s"
    by (simp_all add: dropWhile_eq_self_iff)
  then show ?thesis by (simp add: trim_def)
qed

lemma digits_numeric:
  assumes "s \<noteq> []" and "list_all is_digit s"
  shows "StrNumericLiteral s"
proof -
  obtain c r where s: "s = c # r" using assms(1) by (cases s) auto
  then have "is_digit c" using assms(2) by simp
  then have ss: "strip_sign s = s"
    using s digit_not_sign [of c] by (simp add: strip_sign_def)
  have tw: "takeWhile is_digit s = s" and dw: "dropWhile is_digit s = []"
    using assms(2) by (simp_all add: list_all_iff)
  have "StrUnsignedDecimalLiteral s"
    unfolding StrUnsignedDecimalLiteral_def Let_def tw dw using assms(1) by simp
  then show ?thesis
    unfolding StrNumericLiteral_def ss by simp
qed

lemma digits_not_NaN: "list_all is_digit s \<Longrightarrow> \<not> isNaN_Number s"
  by (cases "s = []") (simp_all add: isNaN_Number_def trim_digits digits_numeric Let_def)

lemmas number_defs = isNaN_Number_def trim_def is_ws_def StrNumericLiteral_def
  NonDecimalIntegerLiteral_def StrUnsignedDecimalLiteral_def strip_sign_def
  ExponentPart_opt_def is_digit_def Let_def

text \<open>
  Claim C9, as the code has it. A received show without media has its label rendered. A
  received show with media has its label rendered exactly when \<^verbatim>\<open>Number\<close> of the label
  is NaN; in particular a label made only of decimal digits is suppressed. Both displays.
\<close>

theorem label_rendered_unless_number:
  "(p_media p = None \<longrightarrow> label_shown (d_on_data (MsgInstruction p) d)) \<and>
   (p_media p \<noteq> None \<and> list_all is_digit (p_name p) \<longrightarrow>
      \<not> label_shown (d_on_data (MsgInstruction p) d)) \<and>
   (p_media p \<noteq> None \<longrightarrow>
      label_shown (d_on_data (MsgInstruction p) d) = isNaN_Number (p_name p)) \<and>
   (\<not> truthy_str (media_url u) \<longrightarrow> label_shown_io (on_play_instruction u shown)) \<and>
   (truthy_str (media_url u) \<and> list_all is_digit (u_name u) \<longrightarrow>
      \<not> label_shown_io (on_play_instruction u shown)) \<and>
   (truthy_str (media_url u) \<longrightarrow>
      label_shown_io (on_play_instruction u shown) = isNaN_Number (u_name u))"
  by (auto simp: label_shown_def label_shown_io_def d_on_data_def media_effect_def
      on_play_instruction_def digits_not_NaN split: option.splits)

text \<open>
  Step 1 without media shows its label; with an image, the label 12 is suppressed and the
  label Thorax is shown; the same on the relayed display.
\<close>

theorem label_rendered_unless_number_witness:
  "p_media (to_payload (step_n ''1'')) = None \<and>
   label_shown (d_on_data (MsgInstruction (to_payload (step_n ''1''))) (display_mount (1/2))) \<and>
   p_media (show_with_media ''12'') \<noteq> None \<and> list_all is_digit ''12'' \<and>
   \<not> label_shown (d_on_data (MsgInstruction (show_with_media ''12'')) (display_mount (1/2))) \<and>
   isNaN_Number ''Thorax'' \<and>
   label_shown (d_on_data (MsgInstruction (show_with_media ''Thorax'')) (display_mount (1/2))) \<and>
   truthy_str (media_url step_a) \<and> list_all is_digit (u_name step_a) \<and>
   \<not> label_shown_io (on_play_instruction step_a None) \<and>
   \<not> truthy_str (media_url (step_a\<lparr>media_url := None\<rparr>)) \<and>
   label_shown_io (on_play_instruction (step_a\<lparr>media_url := None\<rparr>) None)"
proof -
  have h1: "p_media (to_payload (step_n ''1'')) = None"
    by (simp add: to_payload_def step_n_def)
  have h2: "p_media (show_with_media ''12'') \<noteq> None" "p_name (show_with_media ''12'') = ''12''"
    "p_media (show_with_media ''Thorax'') \<noteq> None"
    "p_name (show_with_media ''Thorax'') = ''Thorax''"
    by (simp_all add: show_with_media_def)
  have h3: "list_all is_digit ''12''" by (simp add: is_digit_def)
  have h4: "isNaN_Number ''Thorax''" by (simp add: number_defs)
  have h5: "truthy_str (media_url step_a)" "list_all is_digit (u_name step_a)"
    "\<not> truthy_str (media_url (step_a\<lparr>media_url := None\<rparr>))"
    by (simp_all add: step_a_def truthy_str_def is_digit_def)
  show ?thesis
    using h1 h2 h3 h4 h5
      label_rendered_unless_number
        [of "to_payload (step_n ''1'')" "display_mount (1/2)" step_a None]
      label_rendered_unless_number
        [of "show_with_media ''12''" "display_mount (1/2)"
            "step_a\<lparr>media_url := None\<rparr>" None]
      label_rendered_unless_number
        [of "show_with_media ''Thorax''" "display_mount (1/2)" step_a None]
    by simp
qed

text \<open>
  Claim C9 as stated fails: the label 1.5 is not made only of decimal digits, and with
  media it is suppressed all the same.
\<close>

theorem label_suppressed_for_decimal_fraction:
  "p_media (show_with_media ''1.5'') \<noteq> None \<and>
   \<not> list_all is_digit (p_name (show_with_media ''1.5'')) \<and>
   \<not> label_shown (d_on_data (MsgInstruction (show_with_media ''1.5'')) (display_mount (1/2)))"
  by (simp add: show_with_media_def label_shown_def d_on_data_def media_effect_def
      display_mount_def number_defs)

end
